theory Spec2Isabelle
  imports Main "HOL-Library.Sublist"
begin

section \<open>Data model of \<open>main.go\<close>\<close>

text \<open>
  The program is one straight-line \<open>main\<close> that wires external collaborators together,
  plus the helper \<open>exitOnErr\<close> that starts one goroutine. The collaborators live in
  other modules; they are taken as parameters (record \<open>collab\<close> below) and every theorem
  holds for all of them. Values of collaborator types (pools, the X.509 source, the
  endpoint, the gRPC server, client connections) are opaque to \<open>main\<close>; they are
  elements of the type variable \<open>'o\<close>.
\<close>

text \<open>A Go \<open>error\<close> value that is not nil. The nil error is \<open>None\<close> of \<open>err option\<close>.\<close>

datatype err = Err string

text \<open>
  \<open>time.Duration\<close> counts nanoseconds; \<open>time.Time\<close> is read as nanoseconds since the
  epoch. \<open>Time.Add\<close> and \<open>time.Since\<close> are exact on wall-clock readings, so they are
  \<open>+\<close> and \<open>-\<close> on \<open>int\<close>.
\<close>

type_synonym duration = int
type_synonym time = int

text \<open>\<open>url.URL\<close>, without the \<open>User\<close>, \<open>RawPath\<close> and \<open>ForceQuery\<close> fields that \<open>main\<close> never sets.\<close>

record URL =
  Scheme :: string
  Opaque :: string
  Host :: string
  Path :: string
  RawQuery :: string
  Fragment :: string

text \<open>The zero value \<open>url.URL{}\<close>.\<close>

definition URL_zero :: URL where
  "URL_zero = \<lparr>Scheme = '''', Opaque = '''', Host = '''', Path = '''', RawQuery = '''', Fragment = ''''\<rparr>"

text \<open>\<open>type Config struct\<close> (lines 61 to 74).\<close>

record Config =
  Name :: string
  NSName :: string
  ConnectTo :: URL
  MaxTokenLifetime :: duration
  ResourcePollTimeout :: duration
  DevicePluginPath :: string
  PodResourcesPath :: string
  SRIOVConfigFile :: string
  PCIDevicesPath :: string
  PCIDriversPath :: string
  CgroupPath :: string
  VFIOPath :: string

text \<open>The protobuf timestamp and the \<open>registryapi.NetworkServiceEndpoint\<close> fields that \<open>main\<close> fills.\<close>

record Timestamp =
  Seconds :: int
  Nanos :: int

record NetworkServiceEndpoint =
  nse_Name :: string
  NetworkServiceNames :: "string list"
  Url :: string
  ExpirationTime :: Timestamp

subsection \<open>The error channel\<close>

text \<open>
  A Go channel of \<open>error\<close>: the buffered values, oldest first, and the closed flag.
  A receive takes the oldest buffered value; on an empty closed channel it yields the
  zero value (the nil error) at once; on an empty open channel it blocks (\<open>None\<close>).
\<close>

record chan =
  buf :: "err option list"
  closed :: bool

definition chan_recv :: "chan \<Rightarrow> (err option \<times> chan) option" where
  "chan_recv ch =
     (case buf ch of
        v # vs \<Rightarrow> Some (v, ch\<lparr>buf := vs\<rparr>)
      | [] \<Rightarrow> if closed ch then Some (None, ch) else None)"

definition chan_empty :: chan where
  "chan_empty = \<lparr>buf = [], closed = False\<rparr>"

subsection \<open>Observable events\<close>

datatype level = InfoLevel | ErrorLevel | FatalLevel

datatype arg = ArgErr "err option" | ArgStr string | ArgDur duration | ArgConfig Config

text \<open>One constructor per collaborator call of \<open>main\<close>, with the arguments passed.\<close>

datatype 'o call =
    C_InitJaeger string
  | C_debug_Self
  | C_Usage string
  | C_Process string
  | C_ReadConfig string
  | C_UpdateConfig string string 'o
  | C_token_NewPool 'o
  | C_pci_NewPool string string string 'o
  | C_resource_NewPool 'o 'o
  | C_NewManager string string
  | C_StartServers 'o duration 'o
  | C_NewX509Source
  | C_GetX509SVID 'o
  | C_sriovns_NewServer string 'o 'o 'o 'o 'o string string URL 'o
  | C_TempDir string string
  | C_grpc_NewServer 'o
  | C_endpoint_Register 'o 'o
  | C_ListenAndServe URL 'o
  | C_DialContext string 'o
  | C_TimestampProto time
  | C_Register 'o NetworkServiceEndpoint
  | C_RemoveAll string
  | C_JaegerClose
  | C_cancel

text \<open>
  \<open>Logf\<close> is a formatted log call (\<open>Infof\<close>, \<open>Fatalf\<close>) with its format string as
  written in the source; \<open>Logv\<close> is an unformatted one (\<open>Fatal(err)\<close>, \<open>Error(err)\<close>);
  \<open>Recv\<close> is the watcher goroutine's receive from the error channel.
\<close>

datatype 'o event =
    Logf level string "arg list"
  | Logv level "arg list"
  | Call "'o call"
  | Recv "err option"

subsection \<open>Collaborators\<close>

text \<open>
  Everything \<open>main\<close> calls outside \<open>main.go\<close>. \<open>clock\<close> gives the successive readings
  of \<open>time.Now()\<close>. \<open>UpdateConfig\<close> mutates the configuration behind the pointer it is
  given: its success value is the content of that same object after the call.
  \<open>ListenAndServe\<close> gives the state of the returned channel at the moment \<open>exitOnErr\<close>
  inspects it. \<open>MTLSClientCreds\<close> and \<open>MTLSServerCreds\<close> stand for the nested option
  constructors \<open>grpcfd.TransportCredentials(credentials.NewTLS(tlsconfig.MTLS...Config(source,
  source, tlsconfig.AuthorizeAny())))\<close>; the options that do not depend on any value of
  \<open>main\<close> (tracing, \<open>WaitForReady\<close>, \<open>WithBlock\<close>) are not arguments here.
  Every collaborator is a function: a call returns, and returns the same for the same
  arguments. A call that never returns (a blocking dial to a registry that is down)
  leaves \<open>main\<close> where it is and is outside the model.
\<close>

record 'o collab =
  clock :: "nat \<Rightarrow> time"
  debug_Self :: "err option"
  envconfig_Usage :: "string \<Rightarrow> err option"
  envconfig_Process :: "string \<Rightarrow> err + Config"
  ReadConfig :: "string \<Rightarrow> err + 'o"
  UpdateConfig :: "string \<Rightarrow> string \<Rightarrow> 'o \<Rightarrow> err + 'o"
  token_NewPool :: "'o \<Rightarrow> 'o"
  pci_NewPool :: "string \<Rightarrow> string \<Rightarrow> string \<Rightarrow> 'o \<Rightarrow> err + 'o"
  resource_NewPool :: "'o \<Rightarrow> 'o \<Rightarrow> 'o"
  k8s_NewManager :: "string \<Rightarrow> string \<Rightarrow> 'o"
  StartServers :: "'o \<Rightarrow> duration \<Rightarrow> 'o \<Rightarrow> err option"
  NewX509Source :: "err + 'o"
  GetX509SVID :: "'o \<Rightarrow> err + string"
  authorize_NewServer :: "'o"
  TokenGeneratorFunc :: "'o \<Rightarrow> duration \<Rightarrow> 'o"
  MTLSClientCreds :: "'o \<Rightarrow> 'o"
  MTLSServerCreds :: "'o \<Rightarrow> 'o"
  sriovns_NewServer :: "string \<Rightarrow> 'o \<Rightarrow> 'o \<Rightarrow> 'o \<Rightarrow> 'o \<Rightarrow> 'o \<Rightarrow> string \<Rightarrow> string \<Rightarrow> URL \<Rightarrow> 'o \<Rightarrow> 'o"
  TempDir :: "string \<Rightarrow> string \<Rightarrow> err + string"
  path_Join :: "string \<Rightarrow> string \<Rightarrow> string"
  grpc_NewServer :: "'o \<Rightarrow> 'o"
  endpoint_Register :: "'o \<Rightarrow> 'o \<Rightarrow> 'o"
  ListenAndServe :: "URL \<Rightarrow> 'o \<Rightarrow> chan"
  URLToTarget :: "URL \<Rightarrow> string"
  DialContext :: "string \<Rightarrow> 'o \<Rightarrow> err + 'o"
  NewRegistryClient :: "'o \<Rightarrow> 'o"
  TimestampProto :: "time \<Rightarrow> err + Timestamp"
  Register :: "'o \<Rightarrow> NetworkServiceEndpoint \<Rightarrow> err option"

subsection \<open>Process state\<close>

text \<open>The deferred calls of \<open>main\<close> (lines 94 and 207).\<close>

datatype deferred = D_JaegerClose | D_RemoveAll string

text \<open>
  Program counter of the goroutine started by \<open>exitOnErr\<close> (lines 271 to 275):
  not started, blocked in the receive, about to log the received value, about to call
  \<open>cancel\<close>, finished; the last three with the value of its variable \<open>err\<close>.
\<close>

datatype wpc = W_None | W_Recv | W_Log "err option" | W_Cancel "err option" | W_Done "err option"

text \<open>
  \<open>trace\<close> is the history of events, oldest first; \<open>ticks\<close> counts the clock readings
  taken; \<open>fs\<close> is the set of directories this process has created and not removed;
  \<open>defers\<close> is the stack of deferred calls of \<open>main\<close>, newest first; \<open>errCh\<close> is the
  channel returned by \<open>ListenAndServe\<close> and \<open>serving\<close> says that it has been returned;
  \<open>ctx_done\<close> says that \<open>ctx\<close> has been canceled.
\<close>

record 'o pstate =
  trace :: "'o event list"
  ticks :: nat
  fs :: "string set"
  defers :: "deferred list"
  errCh :: chan
  serving :: bool
  watcher :: wpc
  ctx_done :: bool

definition init_state :: "'o pstate" where
  "init_state = \<lparr>trace = [], ticks = 0, fs = {}, defers = [], errCh = chan_empty,
     serving = False, watcher = W_None, ctx_done = False\<rparr>"

text \<open>
  A step of \<open>main\<close> either goes on with a value or ends the process: \<open>Fatal\<close> and
  \<open>Fatalf\<close> of the logger write the entry and call \<open>os.Exit(1)\<close>, which ends the process
  at once, without running deferred calls.
\<close>

datatype 'a flow = Exited nat | Next 'a

definition emit :: "'o event \<Rightarrow> 'o pstate \<Rightarrow> 'o pstate" where
  "emit ev s = s\<lparr>trace := trace s @ [ev]\<rparr>"

definition Infof :: "string \<Rightarrow> arg list \<Rightarrow> 'o pstate \<Rightarrow> 'o pstate" where
  "Infof fmt args s = emit (Logf InfoLevel fmt args) s"

definition Fatalf :: "string \<Rightarrow> arg list \<Rightarrow> 'o pstate \<Rightarrow> 'a flow \<times> 'o pstate" where
  "Fatalf fmt args s = (Exited 1, emit (Logf FatalLevel fmt args) s)"

definition Fatalv :: "arg list \<Rightarrow> 'o pstate \<Rightarrow> 'a flow \<times> 'o pstate" where
  "Fatalv args s = (Exited 1, emit (Logv FatalLevel args) s)"

definition time_Now :: "'o collab \<Rightarrow> 'o pstate \<Rightarrow> time \<times> 'o pstate" where
  "time_Now c s = (clock c (ticks s), s\<lparr>ticks := Suc (ticks s)\<rparr>)"

definition time_Since :: "'o collab \<Rightarrow> time \<Rightarrow> 'o pstate \<Rightarrow> duration \<times> 'o pstate" where
  "time_Since c t s = (case time_Now c s of (now, s') \<Rightarrow> (now - t, s'))"

text \<open>The phase announcement \<open>log.Entry(ctx).Infof(fmt, time.Since(starttime))\<close>.\<close>

definition announce :: "'o collab \<Rightarrow> string \<Rightarrow> time \<Rightarrow> 'o pstate \<Rightarrow> 'o pstate" where
  "announce c fmt starttime s =
     (case time_Since c starttime s of (d, s') \<Rightarrow> Infof fmt [ArgDur d] s')"

text \<open>Sequencing of two steps of \<open>main\<close>: the second runs only if the first did not exit.\<close>

definition seq :: "('o pstate \<Rightarrow> 'a flow \<times> 'o pstate) \<Rightarrow> ('a \<Rightarrow> 'o pstate \<Rightarrow> 'b flow \<times> 'o pstate)
    \<Rightarrow> 'o pstate \<Rightarrow> 'b flow \<times> 'o pstate" where
  "seq m f s = (case m s of (Exited n, s') \<Rightarrow> (Exited n, s') | (Next x, s') \<Rightarrow> f x s')"

section \<open>The phases of \<open>main\<close>\<close>

text \<open>
  Lines 76 to 116: tracing is set up and its closer deferred, \<open>debug.Self\<close> is tried
  (its error is only logged), the start time is read and the phases are listed.
  The logger's formatter and level settings do not change control flow and are left out.
\<close>

definition phase_list :: "string list" where
  "phase_list =
    [''there are 8 phases which will be executed followed by a success message:'',
     ''the phases include:'',
     ''1: get config from environment'',
     ''2: get SR-IOV config from file'',
     ''3: init pools'',
     ''4: start device plugin server'',
     ''5: retrieve spiffe svid'',
     ''6: create sriovns network service endpoint'',
     ''7: create grpc server and register sriovns'',
     ''8: register xconnectns with the registry'',
     ''a final success message with start time duration'']"

definition preamble :: "'o collab \<Rightarrow> 'o pstate \<Rightarrow> time flow \<times> 'o pstate" where
  "preamble c s0 =
     (let s1 = emit (Call (C_InitJaeger ''cmd-forwarder-sriov'')) s0;
          s2 = s1\<lparr>defers := D_JaegerClose # defers s1\<rparr>;
          s3 = emit (Call C_debug_Self) s2;
          s4 = (case debug_Self c of
                  Some e \<Rightarrow> Infof ''%s'' [ArgErr (Some e)] s3
                | None \<Rightarrow> s3)
      in case time_Now c s4 of (starttime, s5) \<Rightarrow>
           (Next starttime, fold (\<lambda>line. Infof line []) phase_list s5))"

text \<open>Phase 1, lines 119 to 129. \<open>envconfig.Process\<close> fills the \<open>Config\<close> it is given.\<close>

definition phase1 :: "'o collab \<Rightarrow> time \<Rightarrow> 'o pstate \<Rightarrow> Config flow \<times> 'o pstate" where
  "phase1 c starttime s0 =
     (let s1 = announce c ''executing phase 1: get config from environment (time since start: %s)'' starttime s0;
          s2 = emit (Call (C_Usage ''nsm'')) s1
      in case envconfig_Usage c ''nsm'' of
           Some e \<Rightarrow> Fatalv [ArgErr (Some e)] s2
         | None \<Rightarrow>
             (let s3 = emit (Call (C_Process ''nsm'')) s2
              in case envconfig_Process c ''nsm'' of
                   Inl e \<Rightarrow> Fatalf ''error processing config from env: %+v'' [ArgErr (Some e)] s3
                 | Inr config \<Rightarrow> (Next config, Infof ''Config: %#v'' [ArgConfig config] s3)))"

text \<open>
  Phase 2, lines 132 to 141. \<open>sriovConfig\<close> is a pointer; after \<open>pci.UpdateConfig\<close> it
  points to the updated content, which is what the phase hands on.
\<close>

definition phase2 :: "'o collab \<Rightarrow> Config \<Rightarrow> time \<Rightarrow> 'o pstate \<Rightarrow> 'o flow \<times> 'o pstate" where
  "phase2 c config starttime s0 =
     (let s1 = announce c ''executing phase 2: get SR-IOV config from file (time since start: %s)'' starttime s0;
          s2 = emit (Call (C_ReadConfig (SRIOVConfigFile config))) s1
      in case ReadConfig c (SRIOVConfigFile config) of
           Inl e \<Rightarrow> Fatalf ''failed to get PCI resources config: %+v'' [ArgErr (Some e)] s2
         | Inr sriovConfig \<Rightarrow>
             (let s3 = emit (Call (C_UpdateConfig (PCIDevicesPath config) (PCIDriversPath config) sriovConfig)) s2
              in case UpdateConfig c (PCIDevicesPath config) (PCIDriversPath config) sriovConfig of
                   Inl e \<Rightarrow> Fatalf ''failed to update PCI resources config with VFs: %+v'' [ArgErr (Some e)] s3
                 | Inr sriovConfig' \<Rightarrow> (Next sriovConfig', s3)))"

text \<open>Phase 3, lines 144 to 154. The result is \<open>(tokenPool, pciPool, resourcePool)\<close>.\<close>

definition phase3 :: "'o collab \<Rightarrow> Config \<Rightarrow> 'o \<Rightarrow> time \<Rightarrow> 'o pstate \<Rightarrow> ('o \<times> 'o \<times> 'o) flow \<times> 'o pstate" where
  "phase3 c config sriovConfig starttime s0 =
     (let s1 = announce c ''executing phase 3: init pools (time since start: %s)'' starttime s0;
          s2 = emit (Call (C_token_NewPool sriovConfig)) s1;
          tokenPool = token_NewPool c sriovConfig;
          s3 = emit (Call (C_pci_NewPool (PCIDevicesPath config) (PCIDriversPath config) (VFIOPath config) sriovConfig)) s2
      in case pci_NewPool c (PCIDevicesPath config) (PCIDriversPath config) (VFIOPath config) sriovConfig of
           Inl e \<Rightarrow> Fatalf ''failed to init PCI pool: %+v'' [ArgErr (Some e)] s3
         | Inr pciPool \<Rightarrow>
             (let s4 = emit (Call (C_resource_NewPool tokenPool sriovConfig)) s3;
                  resourcePool = resource_NewPool c tokenPool sriovConfig
              in (Next (tokenPool, pciPool, resourcePool), s4)))"

text \<open>Phase 4, lines 157 to 164.\<close>

definition phase4 :: "'o collab \<Rightarrow> Config \<Rightarrow> 'o \<Rightarrow> time \<Rightarrow> 'o pstate \<Rightarrow> unit flow \<times> 'o pstate" where
  "phase4 c config tokenPool starttime s0 =
     (let s1 = announce c ''executing phase 4: start device plugin server (time since start: %s)'' starttime s0;
          s2 = emit (Call (C_NewManager (DevicePluginPath config) (PodResourcesPath config))) s1;
          manager = k8s_NewManager c (DevicePluginPath config) (PodResourcesPath config);
          s3 = emit (Call (C_StartServers tokenPool (ResourcePollTimeout config) manager)) s2
      in case StartServers c tokenPool (ResourcePollTimeout config) manager of
           Some e \<Rightarrow> Fatalf ''failed to start a device plugin server: %+v'' [ArgErr (Some e)] s3
         | None \<Rightarrow> (Next (), s3))"

text \<open>Phase 5, lines 167 to 177. The result is the X.509 source.\<close>

definition phase5 :: "'o collab \<Rightarrow> time \<Rightarrow> 'o pstate \<Rightarrow> 'o flow \<times> 'o pstate" where
  "phase5 c starttime s0 =
     (let s1 = announce c ''executing phase 5: retrieving svid, check spire agent logs if this is the last line you see (time since start: %s)'' starttime s0;
          s2 = emit (Call C_NewX509Source) s1
      in case NewX509Source c of
           Inl e \<Rightarrow> Fatalf ''error getting x509 source: %+v'' [ArgErr (Some e)] s2
         | Inr source \<Rightarrow>
             (let s3 = emit (Call (C_GetX509SVID source)) s2
              in case GetX509SVID c source of
                   Inl e \<Rightarrow> Fatalf ''error getting x509 svid: %+v'' [ArgErr (Some e)] s3
                 | Inr svid_ID \<Rightarrow> (Next source, Infof ''SVID: %q'' [ArgStr svid_ID] s3)))"

text \<open>Phase 6, lines 180 to 198. \<open>sriovns.NewServer\<close> returns no error. The result is the endpoint.\<close>

definition phase6 :: "'o collab \<Rightarrow> Config \<Rightarrow> 'o \<Rightarrow> 'o \<Rightarrow> 'o \<Rightarrow> 'o \<Rightarrow> time \<Rightarrow> 'o pstate \<Rightarrow> 'o flow \<times> 'o pstate" where
  "phase6 c config source pciPool resourcePool sriovConfig starttime s0 =
     (let s1 = announce c ''executing phase 6: create sriovns network service endpoint (time since start: %s)'' starttime s0;
          authz = authorize_NewServer c;
          tokenGen = TokenGeneratorFunc c source (MaxTokenLifetime config);
          creds = MTLSClientCreds c source;
          s2 = emit (Call (C_sriovns_NewServer (Name config) authz tokenGen pciPool resourcePool sriovConfig
                 (VFIOPath config) (CgroupPath config) (ConnectTo config) creds)) s1;
          endpoint = sriovns_NewServer c (Name config) authz tokenGen pciPool resourcePool sriovConfig
                 (VFIOPath config) (CgroupPath config) (ConnectTo config) creds
      in (Next endpoint, s2))"

text \<open>
  \<open>exitOnErr\<close>, lines 263 to 276. The \<open>select\<close> with a \<open>default\<close> branch takes a value
  if one can be received now and logs it with \<open>Fatal\<close>; otherwise the goroutine that
  waits for a value is started.
\<close>

definition exitOnErr :: "'o pstate \<Rightarrow> unit flow \<times> 'o pstate" where
  "exitOnErr s =
     (case chan_recv (errCh s) of
        Some (e, ch') \<Rightarrow> Fatalv [ArgErr e] (s\<lparr>errCh := ch'\<rparr>)
      | None \<Rightarrow> (Next (), s\<lparr>watcher := W_Recv\<rparr>))"

text \<open>Phase 7, lines 201 to 219. The result is \<open>listenOn\<close>.\<close>

definition phase7 :: "'o collab \<Rightarrow> 'o \<Rightarrow> 'o \<Rightarrow> time \<Rightarrow> 'o pstate \<Rightarrow> URL flow \<times> 'o pstate" where
  "phase7 c source endpoint starttime s0 =
     (let s1 = announce c ''executing phase 7: create grpc server and register sriovns (time since start: %s)'' starttime s0;
          s2 = emit (Call (C_TempDir '''' ''sriov-forwarder'')) s1
      in case TempDir c '''' ''sriov-forwarder'' of
           Inl e \<Rightarrow> Fatalf ''error creating tmpDir: %+v'' [ArgErr (Some e)] s2
         | Inr tmpDir \<Rightarrow>
             (let s3 = s2\<lparr>fs := insert tmpDir (fs s2)\<rparr>;
                  s4 = s3\<lparr>defers := D_RemoveAll tmpDir # defers s3\<rparr>;
                  listenOn = URL_zero\<lparr>Scheme := ''unix'', Path := path_Join c tmpDir ''listen_on.io.sock''\<rparr>;
                  s5 = emit (Call (C_grpc_NewServer (MTLSServerCreds c source))) s4;
                  server = grpc_NewServer c (MTLSServerCreds c source);
                  s6 = emit (Call (C_endpoint_Register endpoint server)) s5;
                  server' = endpoint_Register c endpoint server;
                  s7 = emit (Call (C_ListenAndServe listenOn server')) s6;
                  s8 = s7\<lparr>errCh := ListenAndServe c listenOn server', serving := True\<rparr>
              in case exitOnErr s8 of
                   (Exited n, s9) \<Rightarrow> (Exited n, s9)
                 | (Next u, s9) \<Rightarrow> (Next listenOn, s9)))"

text \<open>Phase 8 and the success message, lines 222 to 258.\<close>

definition phase8 :: "'o collab \<Rightarrow> Config \<Rightarrow> 'o \<Rightarrow> URL \<Rightarrow> time \<Rightarrow> 'o pstate \<Rightarrow> unit flow \<times> 'o pstate" where
  "phase8 c config source listenOn starttime s0 =
     (case time_Since c starttime s0 of (d, s1) \<Rightarrow>
      let s2 = Infof ''executing phase 8: register %s with the registry (time since start: %s)''
                 [ArgStr (NSName config), ArgDur d] s1;
          registryCreds = MTLSClientCreds c source;
          target = URLToTarget c (ConnectTo config);
          s3 = emit (Call (C_DialContext target registryCreds)) s2
      in case DialContext c target registryCreds of
           Inl e \<Rightarrow> Fatalf ''failed to connect to registry: %+v'' [ArgErr (Some e)] s3
         | Inr registryCC \<Rightarrow>
             (let registryClient = NewRegistryClient c registryCC
              in case time_Now c s3 of (now, s4) \<Rightarrow>
                 let s5 = emit (Call (C_TimestampProto (now + MaxTokenLifetime config))) s4
                 in case TimestampProto c (now + MaxTokenLifetime config) of
                      Inl e \<Rightarrow> Fatalf ''failed to connect to registry: %+v'' [ArgErr (Some e)] s5
                    | Inr expireTime \<Rightarrow>
                        (let nse = \<lparr>nse_Name = Name config,
                                    NetworkServiceNames = [NSName config],
                                    Url = URLToTarget c listenOn,
                                    ExpirationTime = expireTime\<rparr>;
                             s6 = emit (Call (C_Register registryClient nse)) s5
                         in case Register c registryClient nse of
                              Some e \<Rightarrow> Fatalf ''failed to connect to registry: %+v'' [ArgErr (Some e)] s6
                            | None \<Rightarrow>
                                (case time_Since c starttime s6 of (d', s7) \<Rightarrow>
                                   (Next (), Infof ''Startup completed in %v'' [ArgDur d'] s7)))))"

text \<open>
  \<open>main\<close> up to the point where it blocks in the receive from \<open>ctx.Done()\<close> (line 260):
  the result is \<open>Exited 1\<close> if a \<open>Fatal\<close> call ended the process, \<open>Next ()\<close> if \<open>main\<close>
  is blocked there. \<open>startup\<close> is the part up to the return of \<open>exitOnErr\<close> (line 219);
  it yields the local variables that phase 8 reads.
\<close>

definition startup :: "'o collab \<Rightarrow> 'o pstate \<Rightarrow> (Config \<times> 'o \<times> URL \<times> time) flow \<times> 'o pstate" where
  "startup c =
     seq (preamble c) (\<lambda>starttime.
     seq (phase1 c starttime) (\<lambda>config.
     seq (phase2 c config starttime) (\<lambda>sriovConfig.
     seq (phase3 c config sriovConfig starttime) (\<lambda>(tokenPool, pciPool, resourcePool).
     seq (phase4 c config tokenPool starttime) (\<lambda>u.
     seq (phase5 c starttime) (\<lambda>source.
     seq (phase6 c config source pciPool resourcePool sriovConfig starttime) (\<lambda>endpoint.
     seq (phase7 c source endpoint starttime) (\<lambda>listenOn.
       Pair (Next (config, source, listenOn, starttime))))))))))"

definition main_to_block :: "'o collab \<Rightarrow> 'o pstate \<Rightarrow> unit flow \<times> 'o pstate" where
  "main_to_block c =
     seq (startup c) (\<lambda>(config, source, listenOn, starttime).
       phase8 c config source listenOn starttime)"

text \<open>
  The return of \<open>main\<close> after the receive from \<open>ctx.Done()\<close>: the deferred calls run,
  newest first, and the process ends with status 0. \<open>os.RemoveAll\<close> removes the directory.
\<close>

fun run_deferred :: "deferred \<Rightarrow> 'o pstate \<Rightarrow> 'o pstate" where
  "run_deferred D_JaegerClose s = emit (Call C_JaegerClose) s"
| "run_deferred (D_RemoveAll p) s = (emit (Call (C_RemoveAll p)) s)\<lparr>fs := fs s - {p}\<rparr>"

definition main_return :: "'o pstate \<Rightarrow> 'o pstate" where
  "main_return s = (fold run_deferred (defers s) s)\<lparr>defers := []\<rparr>"

section \<open>The process as a transition system\<close>

text \<open>
  The goroutine of \<open>exitOnErr\<close> runs beside phase 8 and beside the blocked \<open>main\<close>, so
  the process is a transition system with four actors: \<open>main\<close>, the watcher goroutine,
  the transport task that owns the sending side of the error channel, and the operating
  system that delivers a termination signal (\<open>signalctx.WithSignals\<close> cancels \<open>ctx\<close> then).
  \<open>main\<close> takes three steps: \<open>startup\<close>, phase 8, and the return after \<open>ctx\<close> is done.
\<close>

datatype 'o mpc = M_Start | M_Phase8 Config 'o URL time | M_Blocked | M_Exited nat

datatype actor = Main | Watcher | Transport | Signal

fun alive :: "'o mpc \<Rightarrow> bool" where
  "alive (M_Exited n) = False"
| "alive pc = True"

text \<open>
  The transport task may send on the channel while its single slot is free and may
  close it; nothing more is assumed of it. The watcher's three steps are the three
  statements of the goroutine: the receive blocks until \<open>chan_recv\<close> yields a value.
\<close>

inductive step :: "'o collab \<Rightarrow> actor \<Rightarrow> 'o mpc \<times> 'o pstate \<Rightarrow> 'o mpc \<times> 'o pstate \<Rightarrow> bool"
  for c :: "'o collab" where
  main_startup_fatal:
    "startup c s = (Exited n, s') \<Longrightarrow> step c Main (M_Start, s) (M_Exited n, s')"
| main_startup_ok:
    "startup c s = (Next (config, source, listenOn, starttime), s') \<Longrightarrow>
     step c Main (M_Start, s) (M_Phase8 config source listenOn starttime, s')"
| main_phase8_fatal:
    "phase8 c config source listenOn starttime s = (Exited n, s') \<Longrightarrow>
     step c Main (M_Phase8 config source listenOn starttime, s) (M_Exited n, s')"
| main_phase8_ok:
    "phase8 c config source listenOn starttime s = (Next u, s') \<Longrightarrow>
     step c Main (M_Phase8 config source listenOn starttime, s) (M_Blocked, s')"
| main_done:
    "ctx_done s \<Longrightarrow> step c Main (M_Blocked, s) (M_Exited 0, main_return s)"
| watcher_recv:
    "alive pc \<Longrightarrow> watcher s = W_Recv \<Longrightarrow> chan_recv (errCh s) = Some (e, ch') \<Longrightarrow>
     step c Watcher (pc, s) (pc, emit (Recv e) (s\<lparr>errCh := ch', watcher := W_Log e\<rparr>))"
| watcher_log:
    "alive pc \<Longrightarrow> watcher s = W_Log e \<Longrightarrow>
     step c Watcher (pc, s) (pc, emit (Logv ErrorLevel [ArgErr e]) (s\<lparr>watcher := W_Cancel e\<rparr>))"
| watcher_cancel:
    "alive pc \<Longrightarrow> watcher s = W_Cancel e \<Longrightarrow>
     step c Watcher (pc, s) (pc, emit (Call C_cancel) (s\<lparr>ctx_done := True, watcher := W_Done e\<rparr>))"
| transport_send:
    "alive pc \<Longrightarrow> serving s \<Longrightarrow> \<not> closed (errCh s) \<Longrightarrow> buf (errCh s) = [] \<Longrightarrow>
     step c Transport (pc, s) (pc, s\<lparr>errCh := (errCh s)\<lparr>buf := [v]\<rparr>\<rparr>)"
| transport_close:
    "alive pc \<Longrightarrow> serving s \<Longrightarrow> \<not> closed (errCh s) \<Longrightarrow>
     step c Transport (pc, s) (pc, s\<lparr>errCh := (errCh s)\<lparr>closed := True\<rparr>\<rparr>)"
| signal:
    "alive pc \<Longrightarrow> step c Signal (pc, s) (pc, s\<lparr>ctx_done := True\<rparr>)"

inductive reachable :: "'o collab \<Rightarrow> 'o mpc \<times> 'o pstate \<Rightarrow> bool"
  for c :: "'o collab" where
  reach_init: "reachable c (M_Start, init_state)"
| reach_step: "reachable c p \<Longrightarrow> step c a p p' \<Longrightarrow> reachable c p'"

code_pred step .

code_pred reachable .

section \<open>Phases and errors of collaborator calls\<close>

text \<open>
  The phase a collaborator call belongs to, after the phase announcements of the
  source; 0 is for calls outside the eight phases (set-up, deferred calls, \<open>cancel\<close>).
\<close>

fun phase_of :: "'o call \<Rightarrow> nat" where
  "phase_of (C_InitJaeger n) = 0"
| "phase_of C_debug_Self = 0"
| "phase_of (C_Usage p) = 1"
| "phase_of (C_Process p) = 1"
| "phase_of (C_ReadConfig f) = 2"
| "phase_of (C_UpdateConfig d1 d2 x) = 2"
| "phase_of (C_token_NewPool x) = 3"
| "phase_of (C_pci_NewPool d1 d2 v x) = 3"
| "phase_of (C_resource_NewPool t x) = 3"
| "phase_of (C_NewManager d p) = 4"
| "phase_of (C_StartServers t d m) = 4"
| "phase_of C_NewX509Source = 5"
| "phase_of (C_GetX509SVID src) = 5"
| "phase_of (C_sriovns_NewServer n a t p r x v g u cr) = 6"
| "phase_of (C_TempDir d p) = 7"
| "phase_of (C_grpc_NewServer cr) = 7"
| "phase_of (C_endpoint_Register ep srv) = 7"
| "phase_of (C_ListenAndServe u srv) = 7"
| "phase_of (C_DialContext t cr) = 8"
| "phase_of (C_TimestampProto t) = 8"
| "phase_of (C_Register cl nse) = 8"
| "phase_of (C_RemoveAll p) = 0"
| "phase_of C_JaegerClose = 0"
| "phase_of C_cancel = 0"

text \<open>
  The error, if any, that a collaborator call returns to \<open>main\<close>. For \<open>ListenAndServe\<close>
  it is the error waiting on the returned channel.
\<close>

definition sum_err :: "err + 'a \<Rightarrow> err option" where
  "sum_err r = (case r of Inl e \<Rightarrow> Some e | Inr x \<Rightarrow> None)"

fun call_error :: "'o collab \<Rightarrow> 'o call \<Rightarrow> err option" where
  "call_error c C_debug_Self = debug_Self c"
| "call_error c (C_Usage p) = envconfig_Usage c p"
| "call_error c (C_Process p) = sum_err (envconfig_Process c p)"
| "call_error c (C_ReadConfig f) = sum_err (ReadConfig c f)"
| "call_error c (C_UpdateConfig d1 d2 x) = sum_err (UpdateConfig c d1 d2 x)"
| "call_error c (C_pci_NewPool d1 d2 v x) = sum_err (pci_NewPool c d1 d2 v x)"
| "call_error c (C_StartServers t d m) = StartServers c t d m"
| "call_error c C_NewX509Source = sum_err (NewX509Source c)"
| "call_error c (C_GetX509SVID src) = sum_err (GetX509SVID c src)"
| "call_error c (C_TempDir d p) = sum_err (TempDir c d p)"
| "call_error c (C_ListenAndServe u srv) =
     (case chan_recv (ListenAndServe c u srv) of Some (Some e, ch) \<Rightarrow> Some e | _ \<Rightarrow> None)"
| "call_error c (C_DialContext t cr) = sum_err (DialContext c t cr)"
| "call_error c (C_TimestampProto t) = sum_err (TimestampProto c t)"
| "call_error c (C_Register cl nse) = Register c cl nse"
| "call_error c other = None"

text \<open>A log entry written by \<open>Fatal\<close> or \<open>Fatalf\<close> whose argument is the error \<open>e\<close>.\<close>

fun fatal_with :: "err option \<Rightarrow> 'o event \<Rightarrow> bool" where
  "fatal_with e (Logf lvl fmt args) = (lvl = FatalLevel \<and> args = [ArgErr e])"
| "fatal_with e (Logv lvl args) = (lvl = FatalLevel \<and> args = [ArgErr e])"
| "fatal_with e ev = False"

section \<open>What the events of a run must look like\<close>

text \<open>
  The value that \<open>main\<close> logs with \<open>Fatal\<close> or \<open>Fatalf\<close> after a collaborator call, if
  it does: the error returned or, for \<open>ListenAndServe\<close>, whatever \<open>exitOnErr\<close> can receive
  at once from the returned channel (the nil error if the channel is closed and empty).
  The error of \<open>debug.Self\<close> is logged at info level and is not fatal.
\<close>

fun fatal_value :: "'o collab \<Rightarrow> 'o call \<Rightarrow> err option option" where
  "fatal_value c (C_ListenAndServe u srv) = map_option fst (chan_recv (ListenAndServe c u srv))"
| "fatal_value c C_debug_Self = None"
| "fatal_value c cl = map_option Some (call_error c cl)"

text \<open>
  The values that flow from one collaborator to the next, as functions of the
  collaborators: the configuration of phase 1, the hardware configuration as read and
  as updated in phase 2, the listening URL of phase 7 and the record of phase 8 when the
  clock reading taken for the expiration time is reading number \<open>n\<close>.
\<close>

definition the_config :: "'o collab \<Rightarrow> Config option" where
  "the_config c = (case envconfig_Process c ''nsm'' of Inr cfg \<Rightarrow> Some cfg | Inl e \<Rightarrow> None)"

definition read_config :: "'o collab \<Rightarrow> 'o option" where
  "read_config c =
     (case the_config c of
        Some cfg \<Rightarrow> (case ReadConfig c (SRIOVConfigFile cfg) of Inr raw \<Rightarrow> Some raw | Inl e \<Rightarrow> None)
      | None \<Rightarrow> None)"

definition discovered_config :: "'o collab \<Rightarrow> 'o option" where
  "discovered_config c =
     (case (the_config c, read_config c) of
        (Some cfg, Some raw) \<Rightarrow>
          (case UpdateConfig c (PCIDevicesPath cfg) (PCIDriversPath cfg) raw of
             Inr x \<Rightarrow> Some x | Inl e \<Rightarrow> None)
      | _ \<Rightarrow> None)"

definition listen_url :: "'o collab \<Rightarrow> URL option" where
  "listen_url c =
     (case TempDir c '''' ''sriov-forwarder'' of
        Inr tmpDir \<Rightarrow> Some (URL_zero\<lparr>Scheme := ''unix'', Path := path_Join c tmpDir ''listen_on.io.sock''\<rparr>)
      | Inl e \<Rightarrow> None)"

definition payload :: "'o collab \<Rightarrow> nat \<Rightarrow> NetworkServiceEndpoint option" where
  "payload c n =
     (case (the_config c, listen_url c) of
        (Some cfg, Some u) \<Rightarrow>
          (case TimestampProto c (clock c n + MaxTokenLifetime cfg) of
             Inr ts \<Rightarrow> Some \<lparr>nse_Name = Name cfg, NetworkServiceNames = [NSName cfg],
                            Url = URLToTarget c u, ExpirationTime = ts\<rparr>
           | Inl e \<Rightarrow> None)
      | _ \<Rightarrow> None)"

text \<open>The arguments of a call are the values that the earlier collaborators produced.\<close>

fun wired :: "'o collab \<Rightarrow> 'o call \<Rightarrow> bool" where
  "wired c (C_ReadConfig f) = (map_option SRIOVConfigFile (the_config c) = Some f)"
| "wired c (C_UpdateConfig d1 d2 x) =
     (read_config c = Some x \<and> map_option PCIDevicesPath (the_config c) = Some d1
      \<and> map_option PCIDriversPath (the_config c) = Some d2)"
| "wired c (C_token_NewPool x) = (discovered_config c = Some x)"
| "wired c (C_pci_NewPool d1 d2 v x) = (discovered_config c = Some x)"
| "wired c (C_resource_NewPool t x) = (discovered_config c = Some x)"
| "wired c (C_sriovns_NewServer n a t p r x v g u cr) = (discovered_config c = Some x)"
| "wired c (C_ListenAndServe u srv) = (listen_url c = Some u)"
| "wired c (C_Register cl r) = (payload c 9 = Some r)"
| "wired c other = True"

text \<open>
  An event that \<open>main\<close> may have produced while it has gone no further than phase \<open>k\<close>
  without a fatal error: a log entry of \<open>main\<close> other than the success message, or a
  call of a phase up to \<open>k\<close> with the right arguments after which \<open>main\<close> goes on.
  The \<open>Register\<close> call is the last call of phase 8, so a \<open>Register\<close> call that
  returned without error is possible only when phase 8 is over; that is level 9.
\<close>

fun in_time :: "nat \<Rightarrow> 'o call \<Rightarrow> bool" where
  "in_time k (C_Register rc nse) = (9 \<le> k)"
| "in_time k C_cancel = False"
| "in_time k C_JaegerClose = False"
| "in_time k (C_RemoveAll p) = False"
| "in_time k cl = True"

fun ev_ok :: "'o collab \<Rightarrow> nat \<Rightarrow> 'o event \<Rightarrow> bool" where
  "ev_ok c k (Call cl) =
     (phase_of cl \<le> k \<and> fatal_value c cl = None \<and> wired c cl
      \<and> in_time k cl)"
| "ev_ok c k (Logf lvl fmt args) = (lvl \<noteq> ErrorLevel \<and> fmt \<noteq> ''Startup completed in %v'')"
| "ev_ok c k (Logv lvl args) = (lvl \<noteq> ErrorLevel)"
| "ev_ok c k (Recv v) = False"

definition clean :: "'o collab \<Rightarrow> nat \<Rightarrow> 'o event list \<Rightarrow> bool" where
  "clean c k t = list_all (ev_ok c k) t"

text \<open>
  The trace of a run that a fatal error ended: it ends with a call of some phase from 1
  to 8 and the \<open>Fatal\<close> entry for the value that call produced, and before that call it
  is clean up to the phase of the call.
\<close>

definition failed :: "'o collab \<Rightarrow> 'o event list \<Rightarrow> bool" where
  "failed c t =
     (case rev t of
        lg # Call cl # pre \<Rightarrow>
          (case fatal_value c cl of
             Some v \<Rightarrow> fatal_with v lg \<and> 1 \<le> phase_of cl \<and> phase_of cl \<le> 8 \<and> wired c cl
                        \<and> clean c (phase_of cl) (rev pre)
           | None \<Rightarrow> False)
      | _ \<Rightarrow> False)"

text \<open>The trace of a run that reached the success message.\<close>

definition completed :: "'o collab \<Rightarrow> 'o event list \<Rightarrow> bool" where
  "completed c t =
     (case rev t of
        lg # pre \<Rightarrow> lg = Logf InfoLevel ''Startup completed in %v'' [ArgDur (clock c 10 - clock c 0)]
                    \<and> clean c 9 (rev pre)
      | [] \<Rightarrow> False)"

text \<open>The events of the watcher goroutine: its receive, its error-level entry, its \<open>cancel\<close>.\<close>

fun watcher_event :: "'o event \<Rightarrow> bool" where
  "watcher_event (Recv v) = True"
| "watcher_event (Logv lvl args) = (lvl = ErrorLevel)"
| "watcher_event (Logf lvl fmt args) = (lvl = ErrorLevel)"
| "watcher_event (Call cl) = (cl = C_cancel)"

definition watcher_events :: "'o event list \<Rightarrow> 'o event list" where
  "watcher_events t = filter watcher_event t"

text \<open>What the watcher has done so far, by its program counter.\<close>

fun watcher_done :: "wpc \<Rightarrow> 'o event list \<Rightarrow> bool" where
  "watcher_done W_None t = (t = [])"
| "watcher_done W_Recv t = (t = [])"
| "watcher_done (W_Log e) t = (t = [Recv e])"
| "watcher_done (W_Cancel e) t = (t = [Recv e, Logv ErrorLevel [ArgErr e]])"
| "watcher_done (W_Done e) t = (t = [Recv e, Logv ErrorLevel [ArgErr e], Call C_cancel])"

text \<open>The success message of line 258.\<close>

fun success_entry :: "'o event \<Rightarrow> bool" where
  "success_entry (Logf lvl fmt args) = (lvl = InfoLevel \<and> fmt = ''Startup completed in %v'')"
| "success_entry ev = False"

section \<open>Pre- and postconditions for the steps of \<open>main\<close>\<close>

text \<open>
  \<open>triple P m Q E\<close>: started in a state with \<open>P\<close>, the step \<open>m\<close> either goes on with a
  value and a state that satisfy \<open>Q\<close>, or exits with status 1 in a state with \<open>E\<close>.
\<close>

definition triple :: "('o pstate \<Rightarrow> bool) \<Rightarrow> ('o pstate \<Rightarrow> 'a flow \<times> 'o pstate)
    \<Rightarrow> ('a \<Rightarrow> 'o pstate \<Rightarrow> bool) \<Rightarrow> ('o pstate \<Rightarrow> bool) \<Rightarrow> bool" where
  "triple P m Q E =
     (\<forall>s r s'. P s \<longrightarrow> m s = (r, s') \<longrightarrow> (case r of Next x \<Rightarrow> Q x s' | Exited n \<Rightarrow> n = 1 \<and> E s'))"

text \<open>
  The state in which \<open>main\<close> starts; \<open>ctx\<close> may be canceled already. Before phase 7
  nothing but the trace, the clock and the deferred closer has changed.
\<close>

definition initial :: "'o pstate \<Rightarrow> bool" where
  "initial s = (trace s = [] \<and> ticks s = 0 \<and> fs s = {} \<and> defers s = [] \<and> watcher s = W_None
                \<and> \<not> serving s)"

definition quiet :: "'o pstate \<Rightarrow> bool" where
  "quiet s = (fs s = {} \<and> defers s = [D_JaegerClose] \<and> watcher s = W_None \<and> \<not> serving s)"

definition at_phase :: "'o collab \<Rightarrow> nat \<Rightarrow> 'o pstate \<Rightarrow> bool" where
  "at_phase c k s = (clean c k (trace s) \<and> ticks s = Suc k \<and> quiet s)"

text \<open>After phase 7: the directory exists, its removal is deferred, the watcher waits.\<close>

definition owns_tmpdir :: "'o collab \<Rightarrow> 'o pstate \<Rightarrow> bool" where
  "owns_tmpdir c s =
     (case TempDir c '''' ''sriov-forwarder'' of
        Inr d \<Rightarrow> fs s = {d} \<and> defers s = [D_RemoveAll d, D_JaegerClose]
      | Inl e \<Rightarrow> False)"

definition listening :: "'o collab \<Rightarrow> 'o pstate \<Rightarrow> bool" where
  "listening c s =
     (clean c 7 (trace s) \<and> ticks s = 8 \<and> owns_tmpdir c s \<and> watcher s = W_Recv
      \<and> serving s \<and> chan_recv (errCh s) = None)"

definition running :: "'o collab \<Rightarrow> 'o pstate \<Rightarrow> bool" where
  "running c s =
     (completed c (trace s) \<and> ticks s = 11 \<and> owns_tmpdir c s \<and> watcher s = W_Recv
      \<and> serving s \<and> chan_recv (errCh s) = None)"

definition crashed :: "'o collab \<Rightarrow> 'o pstate \<Rightarrow> bool" where
  "crashed c s =
     (failed c (trace s) \<and> (watcher s = W_None \<or> watcher s = W_Recv)
      \<and> (\<forall>p. D_RemoveAll p \<in> set (defers s) \<longrightarrow> p \<in> fs s))"

text \<open>
  What holds in every state of the process: the watcher's events in the trace are the
  ones its program counter accounts for, \<open>main\<close> has changed nothing before its first
  step, and once \<open>main\<close> is past \<open>exitOnErr\<close> the watcher has been started.
\<close>

definition proc_inv :: "'o mpc \<times> 'o pstate \<Rightarrow> bool" where
  "proc_inv p =
     (case p of (pc, s) \<Rightarrow>
        watcher_done (watcher s) (watcher_events (trace s))
      \<and> (case pc of
            M_Start \<Rightarrow> initial s
          | M_Phase8 config source listenOn starttime \<Rightarrow> watcher s \<noteq> W_None
          | M_Blocked \<Rightarrow> watcher s \<noteq> W_None
          | M_Exited n \<Rightarrow> True))"

text \<open>
  The events of \<open>main\<close> in a trace, and whether a trace holds a \<open>Register\<close> call that
  returned no error.
\<close>

definition main_events :: "'o event list \<Rightarrow> 'o event list" where
  "main_events t = filter (\<lambda>ev. \<not> watcher_event ev) t"

fun call_register_ok :: "'o collab \<Rightarrow> 'o call \<Rightarrow> bool" where
  "call_register_ok c (C_Register rc nse) = (Register c rc nse = None)"
| "call_register_ok c cl = False"

fun register_ok :: "'o collab \<Rightarrow> 'o event \<Rightarrow> bool" where
  "register_ok c (Call cl) = call_register_ok c cl"
| "register_ok c ev = False"

definition registered :: "'o collab \<Rightarrow> 'o event list \<Rightarrow> bool" where
  "registered c t = list_ex (register_ok c) t"

definition success_message :: "'o collab \<Rightarrow> 'o event" where
  "success_message c = Logf InfoLevel ''Startup completed in %v'' [ArgDur (clock c 10 - clock c 0)]"

text \<open>
  Where \<open>main\<close> is, against what the trace holds: before the end of phase 8 no
  \<open>Register\<close> call has returned without error and there is no success message; blocked,
  the success message is there once and is the last event of \<open>main\<close>; after the return
  (status 0) \<open>ctx\<close> is canceled; after a fatal exit no \<open>Register\<close> call has returned
  without error.
\<close>

definition run_inv :: "'o collab \<Rightarrow> 'o mpc \<times> 'o pstate \<Rightarrow> bool" where
  "run_inv c p =
     (case p of (pc, s) \<Rightarrow>
        (case pc of
           M_Start \<Rightarrow> initial s
         | M_Phase8 config source listenOn starttime \<Rightarrow>
             starttime = clock c 0 \<and> ticks s = 8 \<and> \<not> registered c (trace s)
             \<and> filter success_entry (trace s) = []
         | M_Blocked \<Rightarrow>
             filter success_entry (trace s) = [success_message c]
             \<and> main_events (trace s) \<noteq> [] \<and> last (main_events (trace s)) = success_message c
         | M_Exited n \<Rightarrow>
             if n = 0 then ctx_done s \<and> filter success_entry (trace s) = [success_message c]
             else \<not> registered c (trace s)))"

text \<open>
  The directory of the listening socket, by the program counter of \<open>main\<close>: it exists,
  with its removal deferred, while \<open>main\<close> is in phase 8 or blocked, and it is gone when
  \<open>main\<close> has returned.
\<close>

definition dir_inv :: "'o collab \<Rightarrow> 'o mpc \<times> 'o pstate \<Rightarrow> bool" where
  "dir_inv c p =
     (case p of (pc, s) \<Rightarrow>
        (case pc of
           M_Start \<Rightarrow> initial s
         | M_Phase8 config source listenOn starttime \<Rightarrow> owns_tmpdir c s
         | M_Blocked \<Rightarrow> owns_tmpdir c s
         | M_Exited n \<Rightarrow> n = 0 \<longrightarrow> fs s = {}))"

section \<open>Test doubles\<close>

text \<open>
  A set of collaborators in which every call succeeds, over opaque values numbered by
  \<open>nat\<close>, and a configuration with the values of the specification's registration
  example. Failures are injected by updating single fields.
\<close>

definition example_config :: Config where
  "example_config =
     \<lparr>Name = ''nse-1'', NSName = ''svc-A'',
      ConnectTo = URL_zero\<lparr>Scheme := ''unix'', Path := ''/connect.to.socket''\<rparr>,
      MaxTokenLifetime = 3600000000000, ResourcePollTimeout = 30000000000,
      DevicePluginPath = ''/var/lib/kubelet/device-plugins/'',
      PodResourcesPath = ''/var/lib/kubelet/pod-resources/'',
      SRIOVConfigFile = ''pci.config'', PCIDevicesPath = ''/sys/bus/pci/devices'',
      PCIDriversPath = ''/sys/bus/pci/drivers'', CgroupPath = ''/host/sys/fs/cgroup/devices'',
      VFIOPath = ''/host/dev/vfio''\<rparr>"

definition stub :: "nat collab" where
  "stub =
     \<lparr>clock = (\<lambda>n. 1000 + int n),
      debug_Self = None,
      envconfig_Usage = (\<lambda>prefix. None),
      envconfig_Process = (\<lambda>prefix. Inr example_config),
      ReadConfig = (\<lambda>file. Inr 1),
      UpdateConfig = (\<lambda>devs drvs x. Inr (x + 1)),
      token_NewPool = (\<lambda>x. 3),
      pci_NewPool = (\<lambda>devs drvs vfio x. Inr 4),
      resource_NewPool = (\<lambda>t x. 5),
      k8s_NewManager = (\<lambda>d p. 6),
      StartServers = (\<lambda>t d m. None),
      NewX509Source = Inr 7,
      GetX509SVID = (\<lambda>src. Inr ''spiffe://example.org/forwarder''),
      authorize_NewServer = 8,
      TokenGeneratorFunc = (\<lambda>src d. 9),
      MTLSClientCreds = (\<lambda>src. 10),
      MTLSServerCreds = (\<lambda>src. 11),
      sriovns_NewServer = (\<lambda>n a t p r x v g u cr. 12),
      TempDir = (\<lambda>d p. Inr ''/tmp/sriov-forwarder1''),
      path_Join = (\<lambda>a b. a @ ''/'' @ b),
      grpc_NewServer = (\<lambda>cr. 13),
      endpoint_Register = (\<lambda>ep srv. srv),
      ListenAndServe = (\<lambda>u srv. chan_empty),
      URLToTarget = (\<lambda>u. Scheme u @ '':'' @ Path u),
      DialContext = (\<lambda>t cr. Inr 14),
      NewRegistryClient = (\<lambda>cc. 15),
      TimestampProto = (\<lambda>t. Inr \<lparr>Seconds = t div 1000000000, Nanos = t mod 1000000000\<rparr>),
      Register = (\<lambda>rc nse. None)\<rparr>"

text \<open>The hardware configuration file cannot be read.\<close>

definition stub_no_file :: "nat collab" where
  "stub_no_file = stub\<lparr>ReadConfig := (\<lambda>file. Inl (Err ''open pci.config: no such file or directory''))\<rparr>"

text \<open>The listener cannot bind: the error is on the channel when \<open>ListenAndServe\<close> returns.\<close>

definition stub_no_listen :: "nat collab" where
  "stub_no_listen =
     stub\<lparr>ListenAndServe := (\<lambda>u srv. \<lparr>buf = [Some (Err ''listen unix: address already in use'')], closed = True\<rparr>)\<rparr>"

text \<open>The three ways in which phase 8 can fail.\<close>

definition stub_no_dial :: "nat collab" where
  "stub_no_dial = stub\<lparr>DialContext := (\<lambda>t cr. Inl (Err ''context canceled''))\<rparr>"

definition stub_no_timestamp :: "nat collab" where
  "stub_no_timestamp = stub\<lparr>TimestampProto := (\<lambda>t. Inl (Err ''timestamp: after 10000-01-01''))\<rparr>"

definition stub_no_register :: "nat collab" where
  "stub_no_register = stub\<lparr>Register := (\<lambda>rc nse. Some (Err ''registry unavailable''))\<rparr>"

section \<open>Loading the configuration\<close>

text \<open>
  The struct tags of \<open>Config\<close> (lines 62 to 73): the type of every field, its \<open>default\<close>
  tag, and whether it carries a \<open>required\<close> tag (none does).
\<close>

datatype field =
    F_Name | F_NSName | F_ConnectTo | F_MaxTokenLifetime | F_ResourcePollTimeout
  | F_DevicePluginPath | F_PodResourcesPath | F_SRIOVConfigFile | F_PCIDevicesPath
  | F_PCIDriversPath | F_CgroupPath | F_VFIOPath

definition config_fields :: "field list" where
  "config_fields = [F_Name, F_NSName, F_ConnectTo, F_MaxTokenLifetime, F_ResourcePollTimeout,
     F_DevicePluginPath, F_PodResourcesPath, F_SRIOVConfigFile, F_PCIDevicesPath,
     F_PCIDriversPath, F_CgroupPath, F_VFIOPath]"

datatype ftype = T_string | T_URL | T_Duration

fun field_type :: "field \<Rightarrow> ftype" where
  "field_type F_ConnectTo = T_URL"
| "field_type F_MaxTokenLifetime = T_Duration"
| "field_type F_ResourcePollTimeout = T_Duration"
| "field_type f = T_string"

fun default_tag :: "field \<Rightarrow> string" where
  "default_tag F_Name = ''interpose-nse#sriov-forwarder''"
| "default_tag F_NSName = ''sriovns''"
| "default_tag F_ConnectTo = ''unix:///connect.to.socket''"
| "default_tag F_MaxTokenLifetime = ''24h''"
| "default_tag F_ResourcePollTimeout = ''30s''"
| "default_tag F_DevicePluginPath = ''/var/lib/kubelet/device-plugins/''"
| "default_tag F_PodResourcesPath = ''/var/lib/kubelet/pod-resources/''"
| "default_tag F_SRIOVConfigFile = ''pci.config''"
| "default_tag F_PCIDevicesPath = ''/sys/bus/pci/devices''"
| "default_tag F_PCIDriversPath = ''/sys/bus/pci/drivers''"
| "default_tag F_CgroupPath = ''/host/sys/fs/cgroup/devices''"
| "default_tag F_VFIOPath = ''/host/dev/vfio''"

definition required_tag :: "field \<Rightarrow> bool" where
  "required_tag f = False"

text \<open>A decoded field value, and the zero value \<open>Config{}\<close> that \<open>main\<close> starts from.\<close>

datatype fvalue = V_string string | V_URL URL | V_Duration duration

definition Config_zero :: Config where
  "Config_zero =
     \<lparr>Name = '''', NSName = '''', ConnectTo = URL_zero, MaxTokenLifetime = 0,
      ResourcePollTimeout = 0, DevicePluginPath = '''', PodResourcesPath = '''',
      SRIOVConfigFile = '''', PCIDevicesPath = '''', PCIDriversPath = '''', CgroupPath = '''',
      VFIOPath = ''''\<rparr>"

fun set_field :: "field \<Rightarrow> fvalue \<Rightarrow> Config \<Rightarrow> Config" where
  "set_field F_Name (V_string v) cfg = cfg\<lparr>Name := v\<rparr>"
| "set_field F_NSName (V_string v) cfg = cfg\<lparr>NSName := v\<rparr>"
| "set_field F_ConnectTo (V_URL v) cfg = cfg\<lparr>ConnectTo := v\<rparr>"
| "set_field F_MaxTokenLifetime (V_Duration v) cfg = cfg\<lparr>MaxTokenLifetime := v\<rparr>"
| "set_field F_ResourcePollTimeout (V_Duration v) cfg = cfg\<lparr>ResourcePollTimeout := v\<rparr>"
| "set_field F_DevicePluginPath (V_string v) cfg = cfg\<lparr>DevicePluginPath := v\<rparr>"
| "set_field F_PodResourcesPath (V_string v) cfg = cfg\<lparr>PodResourcesPath := v\<rparr>"
| "set_field F_SRIOVConfigFile (V_string v) cfg = cfg\<lparr>SRIOVConfigFile := v\<rparr>"
| "set_field F_PCIDevicesPath (V_string v) cfg = cfg\<lparr>PCIDevicesPath := v\<rparr>"
| "set_field F_PCIDriversPath (V_string v) cfg = cfg\<lparr>PCIDriversPath := v\<rparr>"
| "set_field F_CgroupPath (V_string v) cfg = cfg\<lparr>CgroupPath := v\<rparr>"
| "set_field F_VFIOPath (V_string v) cfg = cfg\<lparr>VFIOPath := v\<rparr>"
| "set_field f v cfg = cfg"

text \<open>
  The parsers of the standard library for the two field types that are not strings
  (\<open>time.ParseDuration\<close> and the parser behind \<open>url.URL\<close>), taken as parameters.
\<close>

record decoders =
  ParseDuration :: "string \<Rightarrow> err + duration"
  ParseURL :: "string \<Rightarrow> err + URL"

fun decode :: "decoders \<Rightarrow> ftype \<Rightarrow> string \<Rightarrow> err + fvalue" where
  "decode dec T_string v = Inr (V_string v)"
| "decode dec T_URL v = (case ParseURL dec v of Inl e \<Rightarrow> Inl e | Inr u \<Rightarrow> Inr (V_URL u))"
| "decode dec T_Duration v = (case ParseDuration dec v of Inl e \<Rightarrow> Inl e | Inr d \<Rightarrow> Inr (V_Duration d))"

text \<open>
  Modelled from the spec: \<open>envconfig.Process\<close>, library code that is not among the sources.
  The specification calls the configuration environment-sourced, with every parameter
  optional with a stated default, and lets loading fail with a validation error on
  missing or malformed required fields. So, field by field: the value of the field's
  environment variable if it is set, else the default if there is one, is decoded by
  the type of the field and stored; a field with neither is an error if it is required
  and keeps its zero value otherwise; the first error ends the loading. \<open>environ f\<close> is
  the value of the environment variable of field \<open>f\<close>, if it is set.
\<close>

definition field_value :: "decoders \<Rightarrow> (field \<Rightarrow> string option) \<Rightarrow> field \<Rightarrow> err + fvalue option" where
  "field_value dec environ f =
     (case environ f of
        Some v \<Rightarrow> map_sum id Some (decode dec (field_type f) v)
      | None \<Rightarrow>
          if default_tag f \<noteq> '''' then map_sum id Some (decode dec (field_type f) (default_tag f))
          else if required_tag f then Inl (Err ''required key missing value'')
          else Inr None)"

fun process_fields :: "decoders \<Rightarrow> (field \<Rightarrow> string option) \<Rightarrow> field list \<Rightarrow> Config \<Rightarrow> err + Config" where
  "process_fields dec environ [] cfg = Inr cfg"
| "process_fields dec environ (f # rest) cfg =
     (case field_value dec environ f of
        Inl e \<Rightarrow> Inl e
      | Inr None \<Rightarrow> process_fields dec environ rest cfg
      | Inr (Some v) \<Rightarrow> process_fields dec environ rest (set_field f v cfg))"

definition Process_model :: "decoders \<Rightarrow> (field \<Rightarrow> string option) \<Rightarrow> err + Config" where
  "Process_model dec environ = process_fields dec environ config_fields Config_zero"

text \<open>The record of the defaults, given what the two parsers make of the default strings.\<close>

definition default_config :: "duration \<Rightarrow> duration \<Rightarrow> URL \<Rightarrow> Config" where
  "default_config lifetime poll connectTo =
     \<lparr>Name = ''interpose-nse#sriov-forwarder'', NSName = ''sriovns'', ConnectTo = connectTo,
      MaxTokenLifetime = lifetime, ResourcePollTimeout = poll,
      DevicePluginPath = ''/var/lib/kubelet/device-plugins/'',
      PodResourcesPath = ''/var/lib/kubelet/pod-resources/'',
      SRIOVConfigFile = ''pci.config'', PCIDevicesPath = ''/sys/bus/pci/devices'',
      PCIDriversPath = ''/sys/bus/pci/drivers'', CgroupPath = ''/host/sys/fs/cgroup/devices'',
      VFIOPath = ''/host/dev/vfio''\<rparr>"

text \<open>
  Parsers that know the three default strings and one more duration, for examples:
  durations are in nanoseconds.
\<close>

definition example_decoders :: decoders where
  "example_decoders =
     \<lparr>ParseDuration = (\<lambda>v. if v = ''24h'' then Inr 86400000000000
                          else if v = ''30s'' then Inr 30000000000
                          else if v = ''1h'' then Inr 3600000000000
                          else Inl (Err ''time: invalid duration'')),
      ParseURL = (\<lambda>v. if v = ''unix:///connect.to.socket''
                     then Inr (URL_zero\<lparr>Scheme := ''unix'', Path := ''/connect.to.socket''\<rparr>)
                     else Inl (Err ''parse: invalid URL''))\<rparr>"

section \<open>Proofs: the steps of \<open>main\<close>\<close>

lemmas step_defs = emit_def Infof_def Fatalf_def Fatalv_def time_Now_def time_Since_def announce_def

lemma in_time_mono: "in_time k cl \<Longrightarrow> k \<le> k' \<Longrightarrow> in_time k' cl"
  by (cases cl) simp_all

lemma ev_ok_mono: "ev_ok c k ev \<Longrightarrow> k \<le> k' \<Longrightarrow> ev_ok c k' ev"
  by (cases ev) (auto intro: in_time_mono)

lemma clean_mono: "clean c k t \<Longrightarrow> k \<le> k' \<Longrightarrow> clean c k' t"
  unfolding clean_def by (induction t) (auto intro: ev_ok_mono)

lemma clean_append [simp]: "clean c k (t @ u) = (clean c k t \<and> clean c k u)"
  by (simp add: clean_def)

lemma clean_Nil [simp]: "clean c k []"
  by (simp add: clean_def)

lemma clean_Cons [simp]: "clean c k (ev # t) = (ev_ok c k ev \<and> clean c k t)"
  by (simp add: clean_def)

lemma clean_rev [simp]: "clean c k (rev t) = clean c k t"
  by (simp add: clean_def)

lemma clean_event: "clean c k t \<Longrightarrow> ev \<in> set t \<Longrightarrow> ev_ok c k ev"
  by (simp add: clean_def list_all_iff)

lemma tripleI:
  assumes "\<And>s r s'. P s \<Longrightarrow> m s = (r, s') \<Longrightarrow> (case r of Next x \<Rightarrow> Q x s' | Exited n \<Rightarrow> n = 1 \<and> E s')"
  shows "triple P m Q E"
  using assms unfolding triple_def by blast

lemma tripleD:
  assumes "triple P m Q E" and "P s" and "m s = (r, s')"
  shows "case r of Next x \<Rightarrow> Q x s' | Exited n \<Rightarrow> n = 1 \<and> E s'"
  using assms unfolding triple_def by blast

text \<open>
  Sequencing: the postcondition of the first step is a fact \<open>A\<close> about its value and a
  state condition \<open>Q\<close>, which is the precondition of the second step.
\<close>

lemma triple_seq:
  assumes m: "triple P m (\<lambda>x s. A x \<and> Q s) E" and f: "\<And>x. A x \<Longrightarrow> triple Q (f x) R E"
  shows "triple P (seq m f) R E"
proof (rule tripleI)
  fix s r s''
  assume P: "P s" and run: "seq m f s = (r, s'')"
  obtain r1 s1 where ms: "m s = (r1, s1)" by (cases "m s")
  show "case r of Next x \<Rightarrow> R x s'' | Exited n \<Rightarrow> n = 1 \<and> E s''"
  proof (cases r1)
    case (Exited n)
    with ms run have "r = Exited n" "s'' = s1" by (simp_all add: seq_def)
    with tripleD [OF m P ms] Exited show ?thesis by simp
  next
    case (Next x)
    with ms run have fx: "f x s1 = (r, s'')" by (simp add: seq_def)
    from tripleD [OF m P ms] Next have "A x" "Q s1" by simp_all
    from tripleD [OF f [OF \<open>A x\<close>] \<open>Q s1\<close> fx] show ?thesis .
  qed
qed

lemma triple_return:
  assumes "\<And>s. Q s \<Longrightarrow> R v s"
  shows "triple Q (Pair (Next v)) R E"
  using assms by (auto intro!: tripleI)

lemma owns_tmpdir_cong:
  "fs s' = fs s \<Longrightarrow> defers s' = defers s \<Longrightarrow> owns_tmpdir c s' = owns_tmpdir c s"
  by (simp add: owns_tmpdir_def split: sum.splits)

lemma owns_tmpdir_deferred:
  "owns_tmpdir c s \<Longrightarrow> D_RemoveAll p \<in> set (defers s) \<Longrightarrow> p \<in> fs s"
  by (cases "TempDir c '''' ''sriov-forwarder''") (auto simp: owns_tmpdir_def)

lemma preamble_triple:
  "triple initial (preamble c) (\<lambda>st s. st = clock c 0 \<and> at_phase c 0 s) E"
proof (rule tripleI)
  fix s :: "'a pstate" and r s'
  assume init: "initial s" and run: "preamble c s = (r, s')"
  note defs = preamble_def step_defs Let_def initial_def phase_list_def at_phase_def quiet_def
  show "case r of Next st \<Rightarrow> st = clock c 0 \<and> at_phase c 0 s' | Exited n \<Rightarrow> n = 1 \<and> E s'"
  proof (cases "debug_Self c")
    case None
    with init run show ?thesis by (auto simp: defs)
  next
    case (Some e)
    with init run show ?thesis by (auto simp: defs)
  qed
qed

lemma phase1_triple:
  "triple (at_phase c 0) (phase1 c st)
     (\<lambda>config s. the_config c = Some config \<and> at_phase c 1 s) (crashed c)"
proof (rule tripleI)
  fix s r s'
  assume P: "at_phase c 0 s" and run: "phase1 c st s = (r, s')"
  from P have pre: "clean c 1 (trace s)" "ticks s = 1" "quiet s"
    using clean_mono [of c 0 "trace s" 1] by (simp_all add: at_phase_def)
  note defs = phase1_def step_defs Let_def failed_def crashed_def at_phase_def quiet_def
    sum_err_def the_config_def
  show "case r of Next config \<Rightarrow> the_config c = Some config \<and> at_phase c 1 s'
        | Exited n \<Rightarrow> n = 1 \<and> crashed c s'"
  proof (cases "envconfig_Usage c ''nsm''")
    case (Some e)
    with run pre show ?thesis by (auto simp: defs)
  next
    case usage: None
    show ?thesis
    proof (cases "envconfig_Process c ''nsm''")
      case (Inl e)
      with run pre usage show ?thesis by (auto simp: defs)
    next
      case (Inr config)
      with run pre usage show ?thesis by (auto simp: defs)
    qed
  qed
qed

lemma phase2_triple:
  assumes cfg: "the_config c = Some config"
  shows "triple (at_phase c 1) (phase2 c config st)
           (\<lambda>x s. discovered_config c = Some x \<and> at_phase c 2 s) (crashed c)"
proof (rule tripleI)
  fix s r s'
  assume P: "at_phase c 1 s" and run: "phase2 c config st s = (r, s')"
  from P have pre: "clean c 2 (trace s)" "ticks s = 2" "quiet s"
    using clean_mono [of c 1 "trace s" 2] by (simp_all add: at_phase_def)
  note defs = phase2_def step_defs Let_def failed_def crashed_def at_phase_def quiet_def
    sum_err_def read_config_def discovered_config_def
  show "case r of Next x \<Rightarrow> discovered_config c = Some x \<and> at_phase c 2 s'
        | Exited n \<Rightarrow> n = 1 \<and> crashed c s'"
  proof (cases "ReadConfig c (SRIOVConfigFile config)")
    case (Inl e)
    with run pre cfg show ?thesis by (auto simp: defs)
  next
    case rd: (Inr raw)
    show ?thesis
    proof (cases "UpdateConfig c (PCIDevicesPath config) (PCIDriversPath config) raw")
      case (Inl e)
      with run pre cfg rd show ?thesis by (auto simp: defs)
    next
      case (Inr x)
      with run pre cfg rd show ?thesis by (auto simp: defs)
    qed
  qed
qed

lemma phase3_triple:
  assumes disc: "discovered_config c = Some x"
  shows "triple (at_phase c 2) (phase3 c config x st) (\<lambda>pools s. True \<and> at_phase c 3 s) (crashed c)"
proof (rule tripleI)
  fix s r s'
  assume P: "at_phase c 2 s" and run: "phase3 c config x st s = (r, s')"
  from P have pre: "clean c 3 (trace s)" "ticks s = 3" "quiet s"
    using clean_mono [of c 2 "trace s" 3] by (simp_all add: at_phase_def)
  note defs = phase3_def step_defs Let_def failed_def crashed_def at_phase_def quiet_def sum_err_def
  show "case r of Next pools \<Rightarrow> True \<and> at_phase c 3 s' | Exited n \<Rightarrow> n = 1 \<and> crashed c s'"
  proof (cases "pci_NewPool c (PCIDevicesPath config) (PCIDriversPath config) (VFIOPath config) x")
    case (Inl e)
    with run pre disc show ?thesis by (auto simp: defs)
  next
    case (Inr pciPool)
    with run pre disc show ?thesis by (auto simp: defs)
  qed
qed

lemma phase4_triple:
  "triple (at_phase c 3) (phase4 c config tp st) (\<lambda>u s. True \<and> at_phase c 4 s) (crashed c)"
proof (rule tripleI)
  fix s r s'
  assume P: "at_phase c 3 s" and run: "phase4 c config tp st s = (r, s')"
  from P have pre: "clean c 4 (trace s)" "ticks s = 4" "quiet s"
    using clean_mono [of c 3 "trace s" 4] by (simp_all add: at_phase_def)
  note defs = phase4_def step_defs Let_def failed_def crashed_def at_phase_def quiet_def
  show "case r of Next u \<Rightarrow> True \<and> at_phase c 4 s' | Exited n \<Rightarrow> n = 1 \<and> crashed c s'"
  proof (cases "StartServers c tp (ResourcePollTimeout config)
                  (k8s_NewManager c (DevicePluginPath config) (PodResourcesPath config))")
    case None
    with run pre show ?thesis by (auto simp: defs)
  next
    case (Some e)
    with run pre show ?thesis by (auto simp: defs)
  qed
qed

lemma phase5_triple:
  "triple (at_phase c 4) (phase5 c st) (\<lambda>src s. True \<and> at_phase c 5 s) (crashed c)"
proof (rule tripleI)
  fix s r s'
  assume P: "at_phase c 4 s" and run: "phase5 c st s = (r, s')"
  from P have pre: "clean c 5 (trace s)" "ticks s = 5" "quiet s"
    using clean_mono [of c 4 "trace s" 5] by (simp_all add: at_phase_def)
  note defs = phase5_def step_defs Let_def failed_def crashed_def at_phase_def quiet_def sum_err_def
  show "case r of Next src \<Rightarrow> True \<and> at_phase c 5 s' | Exited n \<Rightarrow> n = 1 \<and> crashed c s'"
  proof (cases "NewX509Source c")
    case (Inl e)
    with run pre show ?thesis by (auto simp: defs)
  next
    case src: (Inr source)
    show ?thesis
    proof (cases "GetX509SVID c source")
      case (Inl e)
      with run pre src show ?thesis by (auto simp: defs)
    next
      case (Inr svid_ID)
      with run pre src show ?thesis by (auto simp: defs)
    qed
  qed
qed

lemma phase6_triple:
  assumes disc: "discovered_config c = Some x"
  shows "triple (at_phase c 5) (phase6 c config src pp rp x st)
           (\<lambda>ep s. True \<and> at_phase c 6 s) (crashed c)"
proof (rule tripleI)
  fix s r s'
  assume P: "at_phase c 5 s" and run: "phase6 c config src pp rp x st s = (r, s')"
  from P have pre: "clean c 6 (trace s)" "ticks s = 6" "quiet s"
    using clean_mono [of c 5 "trace s" 6] by (simp_all add: at_phase_def)
  from run pre disc
  show "case r of Next ep \<Rightarrow> True \<and> at_phase c 6 s' | Exited n \<Rightarrow> n = 1 \<and> crashed c s'"
    by (auto simp: phase6_def step_defs Let_def at_phase_def quiet_def)
qed

lemma phase7_triple:
  "triple (at_phase c 6) (phase7 c src ep st)
     (\<lambda>u s. listen_url c = Some u \<and> listening c s) (crashed c)"
proof (rule tripleI)
  fix s r s'
  assume P: "at_phase c 6 s" and run: "phase7 c src ep st s = (r, s')"
  from P have pre: "clean c 7 (trace s)" "ticks s = 7" "quiet s"
    using clean_mono [of c 6 "trace s" 7] by (simp_all add: at_phase_def)
  note defs = phase7_def exitOnErr_def step_defs Let_def failed_def crashed_def quiet_def
    listening_def owns_tmpdir_def listen_url_def sum_err_def
  show "case r of Next u \<Rightarrow> listen_url c = Some u \<and> listening c s'
        | Exited n \<Rightarrow> n = 1 \<and> crashed c s'"
  proof (cases "TempDir c '''' ''sriov-forwarder''")
    case (Inl e)
    with run pre show ?thesis by (auto simp: defs)
  next
    case dir: (Inr tmpDir)
    show ?thesis
    proof (cases "chan_recv (ListenAndServe c
                    (URL_zero\<lparr>Scheme := ''unix'', Path := path_Join c tmpDir ''listen_on.io.sock''\<rparr>)
                    (endpoint_Register c ep (grpc_NewServer c (MTLSServerCreds c src))))")
      case None
      with run pre dir show ?thesis by (auto simp: defs)
    next
      case (Some vc)
      with run pre dir show ?thesis by (cases vc) (auto simp: defs)
    qed
  qed
qed

lemma phase8_triple:
  assumes cfg: "the_config c = Some config" and url: "listen_url c = Some u"
    and st: "st = clock c 0"
  shows "triple (listening c) (phase8 c config src u st) (\<lambda>x s. running c s) (crashed c)"
proof (rule tripleI)
  fix s r s'
  assume L: "listening c s" and run: "phase8 c config src u st s = (r, s')"
  from L have pre: "ticks s = 8" "clean c 8 (trace s)" "clean c 9 (trace s)" "watcher s = W_Recv"
      "serving s" "chan_recv (errCh s) = None"
    and own: "owns_tmpdir c s"
    using clean_mono [of c 7 "trace s" 8] clean_mono [of c 7 "trace s" 9]
    by (simp_all add: listening_def)
  note own' = owns_tmpdir_deferred [OF own]
  note defs = phase8_def step_defs Let_def failed_def crashed_def completed_def running_def sum_err_def
  show "case r of Next x \<Rightarrow> running c s' | Exited n \<Rightarrow> n = 1 \<and> crashed c s'"
  proof (cases "DialContext c (URLToTarget c (ConnectTo config)) (MTLSClientCreds c src)")
    case (Inl e)
    with run pre own' show ?thesis by (auto simp: defs)
  next
    case dial: (Inr cc)
    show ?thesis
    proof (cases "TimestampProto c (clock c 9 + MaxTokenLifetime config)")
      case (Inl e)
      with run pre own' dial show ?thesis by (auto simp: defs)
    next
      case ts: (Inr expireTime)
      have pl: "payload c 9 = Some \<lparr>nse_Name = Name config, NetworkServiceNames = [NSName config],
                  Url = URLToTarget c u, ExpirationTime = expireTime\<rparr>"
        using cfg url ts by (simp add: payload_def)
      show ?thesis
      proof (cases "Register c (NewRegistryClient c cc) \<lparr>nse_Name = Name config,
                  NetworkServiceNames = [NSName config], Url = URLToTarget c u,
                  ExpirationTime = expireTime\<rparr>")
        case None
        with run pre dial ts pl st owns_tmpdir_cong [of s' s c] own show ?thesis
          by (auto simp: defs)
      next
        case (Some e)
        with run pre own' dial ts pl show ?thesis by (auto simp: defs)
      qed
    qed
  qed
qed

lemma startup_triple:
  "triple initial (startup c)
     (\<lambda>(config, source, listenOn, st) s.
        the_config c = Some config \<and> listen_url c = Some listenOn \<and> st = clock c 0 \<and> listening c s)
     (crashed c)"
  unfolding startup_def
  apply (rule triple_seq [OF preamble_triple])
  apply (rule triple_seq [OF phase1_triple])
  apply (rule triple_seq [OF phase2_triple], assumption)
  apply (rule triple_seq [OF phase3_triple], assumption)
  apply (simp only: split_paired_all prod.case)
  apply (rule triple_seq [OF phase4_triple])
  apply (rule triple_seq [OF phase5_triple])
  apply (rule triple_seq [OF phase6_triple], assumption)
  apply (rule triple_seq [OF phase7_triple])
  apply (rule triple_return)
  apply simp
  done

lemma main_triple:
  "triple initial (main_to_block c) (\<lambda>u s. running c s) (crashed c)"
  unfolding main_to_block_def
proof (rule triple_seq [where A = "\<lambda>(config, source, listenOn, st).
         the_config c = Some config \<and> listen_url c = Some listenOn \<and> st = clock c 0"
         and Q = "listening c"])
  show "triple initial (startup c)
          (\<lambda>x s. (case x of (config, source, listenOn, st) \<Rightarrow>
             the_config c = Some config \<and> listen_url c = Some listenOn \<and> st = clock c 0) \<and> listening c s)
          (crashed c)"
    using startup_triple [of c] by (simp add: triple_def split_def)
next
  fix x :: "Config \<times> 'a \<times> URL \<times> time"
  assume "case x of (config, source, listenOn, st) \<Rightarrow>
            the_config c = Some config \<and> listen_url c = Some listenOn \<and> st = clock c 0"
  then show "triple (listening c)
          (case x of (config, source, listenOn, starttime) \<Rightarrow> phase8 c config source listenOn starttime)
          (\<lambda>u s. running c s) (crashed c)"
    by (cases x) (auto intro: phase8_triple)
qed

text \<open>Every run of \<open>main\<close> from the initial state ends in one of the two ways.\<close>

lemma initial_init_state: "initial init_state"
  by (simp add: initial_def init_state_def)

lemma main_run:
  assumes "main_to_block c init_state = (out, s)"
  shows "(out = Next () \<and> running c s) \<or> (out = Exited 1 \<and> crashed c s)"
  using tripleD [OF main_triple initial_init_state assms] by (cases out) auto


lemmas run_defs = main_to_block_def startup_def seq_def preamble_def phase1_def phase2_def phase3_def
  phase4_def phase5_def phase6_def phase7_def phase8_def exitOnErr_def step_defs init_state_def
  phase_list_def Let_def chan_recv_def chan_empty_def URL_zero_def

lemmas stub_defs = stub_def example_config_def stub_no_file_def stub_no_listen_def stub_no_dial_def
  stub_no_timestamp_def stub_no_register_def

lemma fatal_value_error:
  "1 \<le> phase_of cl \<Longrightarrow> call_error c cl = Some e \<Longrightarrow> fatal_value c cl = Some (Some e)"
  by (cases cl) (auto split: option.splits)

lemma failedD:
  assumes "failed c t"
  obtains pre cl lg v where "t = pre @ [Call cl, lg]" and "fatal_value c cl = Some v"
    and "fatal_with v lg" and "1 \<le> phase_of cl" and "phase_of cl \<le> 8" and "wired c cl"
    and "clean c (phase_of cl) pre"
proof -
  from assms obtain lg cl pre' where r: "rev t = lg # Call cl # pre'"
    by (auto simp: failed_def split: list.splits event.splits)
  then have t: "t = rev pre' @ [Call cl, lg]"
    by (simp add: rev_swap)
  from assms r obtain v where "fatal_value c cl = Some v" "fatal_with v lg" "1 \<le> phase_of cl"
      "phase_of cl \<le> 8" "wired c cl" "clean c (phase_of cl) (rev pre')"
    by (auto simp: failed_def split: option.splits)
  with t show ?thesis by (rule that)
qed

lemma completedD:
  assumes "completed c t"
  obtains pre where "t = pre @ [Logf InfoLevel ''Startup completed in %v'' [ArgDur (clock c 10 - clock c 0)]]"
    and "clean c 9 pre"
proof -
  from assms obtain lg pre' where r: "rev t = lg # pre'"
    by (auto simp: completed_def split: list.splits)
  then have t: "t = rev pre' @ [lg]"
    by (simp add: rev_swap)
  from assms r have "lg = Logf InfoLevel ''Startup completed in %v'' [ArgDur (clock c 10 - clock c 0)]"
      "clean c 9 (rev pre')"
    by (auto simp: completed_def)
  with t show ?thesis by (auto intro: that)
qed

lemma fatal_with_no_call: "fatal_with v lg \<Longrightarrow> lg \<noteq> Call cl"
  by (cases lg) auto

text \<open>A call after which \<open>main\<close> logs a fatal value ends the run, and it is the last call.\<close>

lemma fatal_call_ends_run:
  assumes run: "main_to_block c init_state = (out, s)"
    and call: "Call cl \<in> set (trace s)"
    and fv: "fatal_value c cl = Some v"
  shows "out = Exited 1 \<and> (\<exists>pre lg. trace s = pre @ [Call cl, lg] \<and> fatal_with v lg
           \<and> clean c (phase_of cl) pre)"
  using main_run [OF run]
proof (elim disjE conjE)
  assume "running c s"
  then have "completed c (trace s)" by (simp add: running_def)
  then obtain pre where t: "trace s = pre @ [Logf InfoLevel ''Startup completed in %v''
        [ArgDur (clock c 10 - clock c 0)]]" and cl: "clean c 9 pre"
    by (rule completedD)
  from call t have "Call cl \<in> set pre" by simp
  from clean_event [OF cl this] fv show ?thesis by simp
next
  assume out: "out = Exited 1" and "crashed c s"
  then have "failed c (trace s)" by (simp add: crashed_def)
  then obtain pre cl0 lg v0 where t: "trace s = pre @ [Call cl0, lg]"
    and fv0: "fatal_value c cl0 = Some v0" and fw: "fatal_with v0 lg"
    and cl: "clean c (phase_of cl0) pre"
    by (rule failedD)
  from call t fatal_with_no_call [OF fw] have "Call cl \<in> set pre \<or> cl = cl0" by auto
  then have eq: "cl = cl0"
  proof
    assume "Call cl \<in> set pre"
    from clean_event [OF cl this] fv show ?thesis by simp
  qed
  with fv fv0 have "v0 = v" by simp
  with out t fw cl eq show ?thesis by blast
qed

text \<open>Every call in the trace of a run has the arguments the earlier calls produced.\<close>

lemma run_calls:
  assumes run: "main_to_block c init_state = (out, s)" and call: "Call cl \<in> set (trace s)"
  shows "wired c cl \<and> phase_of cl \<le> 8"
  using main_run [OF run]
proof (elim disjE conjE)
  assume "running c s"
  then have "completed c (trace s)" by (simp add: running_def)
  then obtain pre where t: "trace s = pre @ [Logf InfoLevel ''Startup completed in %v''
        [ArgDur (clock c 10 - clock c 0)]]" and cl: "clean c 9 pre"
    by (rule completedD)
  from call t have "Call cl \<in> set pre" by simp
  from clean_event [OF cl this] show ?thesis
    by (cases cl) simp_all
next
  assume "crashed c s"
  then have "failed c (trace s)" by (simp add: crashed_def)
  then obtain pre cl0 lg v0 where t: "trace s = pre @ [Call cl0, lg]"
    and fw: "fatal_with v0 lg" and w0: "wired c cl0" and p0: "phase_of cl0 \<le> 8"
    and cl: "clean c (phase_of cl0) pre"
    by (rule failedD)
  from call t fatal_with_no_call [OF fw] have "Call cl \<in> set pre \<or> cl = cl0" by auto
  then show ?thesis
  proof
    assume "Call cl \<in> set pre"
    from clean_event [OF cl this] p0 show ?thesis by simp
  next
    assume "cl = cl0"
    with w0 p0 show ?thesis by simp
  qed
qed

section \<open>Fail-fast sequencing of the phases\<close>

text \<open>
  Claim C1. Whenever a collaborator call of a phase from 1 to 8 returns an error, the run
  ends there: the process exits with status 1, the call is the last call of the trace
  and is followed only by the \<open>Fatal\<close> entry that carries exactly that error, and no
  call of a later phase occurs anywhere in the trace. (Phase 6 has no call that can
  return an error.)
\<close>

theorem fail_fast:
  assumes run: "main_to_block c init_state = (out, s)"
    and call: "Call cl \<in> set (trace s)"
    and phase: "1 \<le> phase_of cl"
    and err: "call_error c cl = Some e"
  shows "out = Exited 1
       \<and> (\<exists>pre lg. trace s = pre @ [Call cl, lg] \<and> fatal_with (Some e) lg)
       \<and> (\<forall>cl'. Call cl' \<in> set (trace s) \<longrightarrow> phase_of cl' \<le> phase_of cl)"
proof -
  from fatal_value_error [OF phase err] have "fatal_value c cl = Some (Some e)" .
  from fatal_call_ends_run [OF run call this]
  obtain pre lg where out: "out = Exited 1" and t: "trace s = pre @ [Call cl, lg]"
    and fw: "fatal_with (Some e) lg" and cl: "clean c (phase_of cl) pre"
    by blast
  have "phase_of cl' \<le> phase_of cl" if "Call cl' \<in> set (trace s)" for cl'
  proof -
    from that t fatal_with_no_call [OF fw] have "Call cl' \<in> set pre \<or> cl' = cl" by auto
    then show ?thesis
    proof
      assume "Call cl' \<in> set pre"
      from clean_event [OF cl this] show ?thesis by simp
    qed simp
  qed
  with out t fw show ?thesis by blast
qed

theorem fail_fast_witness:
  "Call (C_ReadConfig ''pci.config'') \<in> set (trace (snd (main_to_block stub_no_file init_state)))
   \<and> 1 \<le> phase_of (C_ReadConfig ''pci.config'' :: nat call)
   \<and> call_error stub_no_file (C_ReadConfig ''pci.config'')
       = Some (Err ''open pci.config: no such file or directory'')
   \<and> fst (main_to_block stub_no_file init_state) = Exited 1
   \<and> (\<exists>pre lg. trace (snd (main_to_block stub_no_file init_state))
                    = pre @ [Call (C_ReadConfig ''pci.config''), lg]
         \<and> fatal_with (Some (Err ''open pci.config: no such file or directory'')) lg)"
proof -
  have run: "main_to_block stub_no_file init_state
      = (fst (main_to_block stub_no_file init_state), snd (main_to_block stub_no_file init_state))"
    by simp
  have call: "Call (C_ReadConfig ''pci.config'') \<in> set (trace (snd (main_to_block stub_no_file init_state)))"
    by (simp add: run_defs stub_defs)
  have phase: "1 \<le> phase_of (C_ReadConfig ''pci.config'' :: nat call)"
    by simp
  have err: "call_error stub_no_file (C_ReadConfig ''pci.config'')
      = Some (Err ''open pci.config: no such file or directory'')"
    by (simp add: stub_defs sum_err_def)
  from fail_fast [OF run call phase err] call phase err show ?thesis
    by blast
qed

section \<open>The check after starting the transport server\<close>

text \<open>
  Claim C2. If, when \<open>grpcutils.ListenAndServe\<close> has returned, a value can be received
  from its channel at once, then \<open>exitOnErr\<close> takes it in the non-blocking \<open>select\<close>: the
  \<open>ListenAndServe\<close> call is the last call of the run and is followed directly by the
  \<open>Fatal\<close> entry for that value, the process exits with status 1, and no call of phase 8
  (in particular no \<open>Register\<close> call) is in the trace.
\<close>

theorem pending_error_is_fatal:
  assumes run: "main_to_block c init_state = (out, s)"
    and started: "Call (C_ListenAndServe u srv) \<in> set (trace s)"
    and pending: "chan_recv (ListenAndServe c u srv) = Some (v, ch)"
  shows "out = Exited 1
       \<and> (\<exists>pre lg. trace s = pre @ [Call (C_ListenAndServe u srv), lg] \<and> fatal_with v lg)
       \<and> (\<forall>cl. Call cl \<in> set (trace s) \<longrightarrow> phase_of cl < 8)
       \<and> (\<forall>rc nse. Call (C_Register rc nse) \<notin> set (trace s))"
proof -
  from pending have "fatal_value c (C_ListenAndServe u srv) = Some v" by simp
  from fatal_call_ends_run [OF run started this]
  obtain pre lg where out: "out = Exited 1"
    and t: "trace s = pre @ [Call (C_ListenAndServe u srv), lg]"
    and fw: "fatal_with v lg" and cl: "clean c 7 pre"
    by auto
  have early: "phase_of cl < 8" if "Call cl \<in> set (trace s)" for cl
  proof -
    from that t fatal_with_no_call [OF fw]
    have "Call cl \<in> set pre \<or> cl = C_ListenAndServe u srv" by auto
    then show ?thesis
    proof
      assume "Call cl \<in> set pre"
      from clean_event [OF cl this] show ?thesis by simp
    qed simp
  qed
  have "Call (C_Register rc nse) \<notin> set (trace s)" for rc nse
    using early [of "C_Register rc nse"] by auto
  with out t fw early show ?thesis by blast
qed

theorem pending_error_is_fatal_witness:
  "Call (C_ListenAndServe \<lparr>Scheme = ''unix'', Opaque = '''', Host = '''',
       Path = ''/tmp/sriov-forwarder1/listen_on.io.sock'', RawQuery = '''', Fragment = ''''\<rparr> 13)
     \<in> set (trace (snd (main_to_block stub_no_listen init_state)))
   \<and> chan_recv (ListenAndServe stub_no_listen \<lparr>Scheme = ''unix'', Opaque = '''', Host = '''',
       Path = ''/tmp/sriov-forwarder1/listen_on.io.sock'', RawQuery = '''', Fragment = ''''\<rparr> 13)
       = Some (Some (Err ''listen unix: address already in use''), \<lparr>buf = [], closed = True\<rparr>)
   \<and> fst (main_to_block stub_no_listen init_state) = Exited 1
   \<and> (\<exists>pre lg. trace (snd (main_to_block stub_no_listen init_state))
         = pre @ [Call (C_ListenAndServe \<lparr>Scheme = ''unix'', Opaque = '''', Host = '''',
              Path = ''/tmp/sriov-forwarder1/listen_on.io.sock'', RawQuery = '''', Fragment = ''''\<rparr> 13), lg]
         \<and> fatal_with (Some (Err ''listen unix: address already in use'')) lg)"
proof -
  have run: "main_to_block stub_no_listen init_state
      = (fst (main_to_block stub_no_listen init_state), snd (main_to_block stub_no_listen init_state))"
    by simp
  have started: "Call (C_ListenAndServe \<lparr>Scheme = ''unix'', Opaque = '''', Host = '''',
       Path = ''/tmp/sriov-forwarder1/listen_on.io.sock'', RawQuery = '''', Fragment = ''''\<rparr> 13)
     \<in> set (trace (snd (main_to_block stub_no_listen init_state)))"
    by (simp add: run_defs stub_defs)
  have pending: "chan_recv (ListenAndServe stub_no_listen \<lparr>Scheme = ''unix'', Opaque = '''', Host = '''',
       Path = ''/tmp/sriov-forwarder1/listen_on.io.sock'', RawQuery = '''', Fragment = ''''\<rparr> 13)
       = Some (Some (Err ''listen unix: address already in use''), \<lparr>buf = [], closed = True\<rparr>)"
    by (simp add: stub_defs chan_recv_def)
  from pending_error_is_fatal [OF run started pending] started pending show ?thesis
    by blast
qed

section \<open>The registration record\<close>

text \<open>
  Claim C4. Every record that a run submits with \<open>Register\<close> is built from the
  configuration of phase 1 and the listening URL of phase 7: its name is \<open>config.Name\<close>,
  its list of served services is exactly \<open>[config.NSName]\<close>, its URL is \<open>URLToTarget\<close> of
  the URL that \<open>ListenAndServe\<close> was called with, and its expiration time is the protobuf
  timestamp of \<open>T + config.MaxTokenLifetime\<close>, where \<open>T\<close> is the clock reading taken for
  it (reading number 9: readings 0 to 8 are the start time and the eight phase
  announcements).
\<close>

theorem registration_payload:
  assumes run: "main_to_block c init_state = (out, s)"
    and reg: "Call (C_Register rc nse) \<in> set (trace s)"
  shows "\<exists>config tmpDir ts.
           envconfig_Process c ''nsm'' = Inr config
         \<and> TempDir c '''' ''sriov-forwarder'' = Inr tmpDir
         \<and> TimestampProto c (clock c 9 + MaxTokenLifetime config) = Inr ts
         \<and> nse = \<lparr>nse_Name = Name config,
                   NetworkServiceNames = [NSName config],
                   Url = URLToTarget c \<lparr>Scheme = ''unix'', Opaque = '''', Host = '''',
                           Path = path_Join c tmpDir ''listen_on.io.sock'',
                           RawQuery = '''', Fragment = ''''\<rparr>,
                   ExpirationTime = ts\<rparr>
         \<and> (\<forall>u srv. Call (C_ListenAndServe u srv) \<in> set (trace s) \<longrightarrow> Url nse = URLToTarget c u)"
proof -
  from run_calls [OF run reg] have pl: "payload c 9 = Some nse" by simp
  then obtain config u where cfg: "the_config c = Some config" and url: "listen_url c = Some u"
    by (auto simp: payload_def split: option.splits)
  from cfg have p: "envconfig_Process c ''nsm'' = Inr config"
    by (simp add: the_config_def split: sum.splits)
  from url obtain tmpDir where d: "TempDir c '''' ''sriov-forwarder'' = Inr tmpDir"
    and u: "u = \<lparr>Scheme = ''unix'', Opaque = '''', Host = '''',
                 Path = path_Join c tmpDir ''listen_on.io.sock'', RawQuery = '''', Fragment = ''''\<rparr>"
    by (auto simp: listen_url_def URL_zero_def split: sum.splits)
  from pl cfg url obtain ts where ts: "TimestampProto c (clock c 9 + MaxTokenLifetime config) = Inr ts"
    and nse: "nse = \<lparr>nse_Name = Name config, NetworkServiceNames = [NSName config],
                      Url = URLToTarget c u, ExpirationTime = ts\<rparr>"
    by (auto simp: payload_def split: sum.splits)
  have "Url nse = URLToTarget c u'" if "Call (C_ListenAndServe u' srv) \<in> set (trace s)" for u' srv
    using run_calls [OF run that] url nse by simp
  with p d ts nse u show ?thesis by blast
qed

theorem registration_payload_witness:
  "Call (C_Register 15 \<lparr>nse_Name = ''nse-1'', NetworkServiceNames = [''svc-A''],
       Url = ''unix:/tmp/sriov-forwarder1/listen_on.io.sock'',
       ExpirationTime = \<lparr>Seconds = 3600, Nanos = 1009\<rparr>\<rparr>)
     \<in> set (trace (snd (main_to_block stub init_state)))
   \<and> (\<exists>config tmpDir ts.
           envconfig_Process stub ''nsm'' = Inr config
         \<and> TempDir stub '''' ''sriov-forwarder'' = Inr tmpDir
         \<and> TimestampProto stub (clock stub 9 + MaxTokenLifetime config) = Inr ts
         \<and> \<lparr>nse_Name = ''nse-1'', NetworkServiceNames = [''svc-A''],
             Url = ''unix:/tmp/sriov-forwarder1/listen_on.io.sock'',
             ExpirationTime = \<lparr>Seconds = 3600, Nanos = 1009\<rparr>\<rparr>
           = \<lparr>nse_Name = Name config,
              NetworkServiceNames = [NSName config],
              Url = URLToTarget stub \<lparr>Scheme = ''unix'', Opaque = '''', Host = '''',
                      Path = path_Join stub tmpDir ''listen_on.io.sock'',
                      RawQuery = '''', Fragment = ''''\<rparr>,
              ExpirationTime = ts\<rparr>)"
proof -
  have run: "main_to_block stub init_state
      = (fst (main_to_block stub init_state), snd (main_to_block stub init_state))"
    by simp
  have reg: "Call (C_Register 15 \<lparr>nse_Name = ''nse-1'', NetworkServiceNames = [''svc-A''],
       Url = ''unix:/tmp/sriov-forwarder1/listen_on.io.sock'',
       ExpirationTime = \<lparr>Seconds = 3600, Nanos = 1009\<rparr>\<rparr>)
     \<in> set (trace (snd (main_to_block stub init_state)))"
    by (simp add: run_defs stub_defs)
  from registration_payload [OF run reg] reg show ?thesis
    by blast
qed

section \<open>The hardware configuration\<close>

lemma phase2_error_fatal:
  assumes run: "main_to_block c init_state = (out, s)"
    and call: "Call cl \<in> set (trace s)" and phase: "phase_of cl = 2"
    and err: "call_error c cl = Some e"
  shows "out = Exited 1 \<and> fatal_with (Some e) (last (trace s))
        \<and> (\<forall>cl'. Call cl' \<in> set (trace s) \<longrightarrow> phase_of cl' \<noteq> 3)"
proof -
  from phase err have "fatal_value c cl = Some (Some e)"
    by (simp add: fatal_value_error)
  from fatal_call_ends_run [OF run call this] phase
  obtain pre lg where out: "out = Exited 1" and t: "trace s = pre @ [Call cl, lg]"
    and fw: "fatal_with (Some e) lg" and cl: "clean c 2 pre"
    by auto
  have "phase_of cl' \<noteq> 3" if "Call cl' \<in> set (trace s)" for cl'
  proof -
    from that t fatal_with_no_call [OF fw] have "Call cl' \<in> set pre \<or> cl' = cl" by auto
    then show ?thesis
    proof
      assume "Call cl' \<in> set pre"
      from clean_event [OF cl this] show ?thesis by simp
    next
      assume "cl' = cl"
      with phase show ?thesis by simp
    qed
  qed
  with out t fw show ?thesis by simp
qed

text \<open>
  Claim C8. In every run the hardware configuration is read from the file named in the
  configuration, \<open>pci.UpdateConfig\<close> is then applied to the object that was read, and the
  three pool constructors of phase 3 receive that object as \<open>pci.UpdateConfig\<close> left it.
  A read or an update that returns an error ends the run with status 1, with the
  \<open>Fatal\<close> entry for that error as the last event and without any call of phase 3.
\<close>

theorem pools_see_discovered_config:
  assumes run: "main_to_block c init_state = (out, s)"
  shows "(\<forall>fname. Call (C_ReadConfig fname) \<in> set (trace s) \<longrightarrow>
            (\<exists>config. envconfig_Process c ''nsm'' = Inr config \<and> fname = SRIOVConfigFile config))
       \<and> (\<forall>devs drvs raw. Call (C_UpdateConfig devs drvs raw) \<in> set (trace s) \<longrightarrow>
            (\<exists>config. envconfig_Process c ''nsm'' = Inr config
               \<and> ReadConfig c (SRIOVConfigFile config) = Inr raw
               \<and> devs = PCIDevicesPath config \<and> drvs = PCIDriversPath config))
       \<and> (\<forall>cl x. Call cl \<in> set (trace s) \<longrightarrow>
            (cl = C_token_NewPool x \<or> (\<exists>devs drvs vfio. cl = C_pci_NewPool devs drvs vfio x)
               \<or> (\<exists>tokenPool. cl = C_resource_NewPool tokenPool x)) \<longrightarrow>
            (\<exists>config raw. envconfig_Process c ''nsm'' = Inr config
               \<and> ReadConfig c (SRIOVConfigFile config) = Inr raw
               \<and> UpdateConfig c (PCIDevicesPath config) (PCIDriversPath config) raw = Inr x))
       \<and> (\<forall>cl e. Call cl \<in> set (trace s) \<longrightarrow> phase_of cl = 2 \<longrightarrow> call_error c cl = Some e \<longrightarrow>
            out = Exited 1 \<and> fatal_with (Some e) (last (trace s))
            \<and> (\<forall>cl'. Call cl' \<in> set (trace s) \<longrightarrow> phase_of cl' \<noteq> 3))"
proof -
  have rd: "\<exists>config. envconfig_Process c ''nsm'' = Inr config \<and> fname = SRIOVConfigFile config"
    if "Call (C_ReadConfig fname) \<in> set (trace s)" for fname
    using run_calls [OF run that] by (auto simp: the_config_def split: sum.splits)
  have upd: "\<exists>config. envconfig_Process c ''nsm'' = Inr config
          \<and> ReadConfig c (SRIOVConfigFile config) = Inr raw
          \<and> devs = PCIDevicesPath config \<and> drvs = PCIDriversPath config"
    if "Call (C_UpdateConfig devs drvs raw) \<in> set (trace s)" for devs drvs raw
    using run_calls [OF run that]
    by (auto simp: the_config_def read_config_def split: sum.splits option.splits)
  have pools: "\<exists>config raw. envconfig_Process c ''nsm'' = Inr config
               \<and> ReadConfig c (SRIOVConfigFile config) = Inr raw
               \<and> UpdateConfig c (PCIDevicesPath config) (PCIDriversPath config) raw = Inr x"
    if call: "Call cl \<in> set (trace s)"
      and pool: "cl = C_token_NewPool x \<or> (\<exists>devs drvs vfio. cl = C_pci_NewPool devs drvs vfio x)
               \<or> (\<exists>tokenPool. cl = C_resource_NewPool tokenPool x)" for cl x
  proof -
    from run_calls [OF run call] pool have "discovered_config c = Some x"
      by auto
    then show ?thesis
      by (auto simp: discovered_config_def read_config_def the_config_def
          split: sum.splits option.splits)
  qed
  have fatal: "out = Exited 1 \<and> fatal_with (Some e) (last (trace s))
        \<and> (\<forall>cl'. Call cl' \<in> set (trace s) \<longrightarrow> phase_of cl' \<noteq> 3)"
    if "Call cl \<in> set (trace s)" and "phase_of cl = 2" and "call_error c cl = Some e" for cl e
    using phase2_error_fatal [OF run that] .
  from rd upd pools fatal show ?thesis
    by (intro conjI allI impI) blast+
qed

theorem pools_see_discovered_config_witness:
  "Call (C_ReadConfig ''pci.config'') \<in> set (trace (snd (main_to_block stub init_state)))
   \<and> Call (C_UpdateConfig ''/sys/bus/pci/devices'' ''/sys/bus/pci/drivers'' 1)
       \<in> set (trace (snd (main_to_block stub init_state)))
   \<and> Call (C_pci_NewPool ''/sys/bus/pci/devices'' ''/sys/bus/pci/drivers'' ''/host/dev/vfio'' 2)
       \<in> set (trace (snd (main_to_block stub init_state)))
   \<and> (\<exists>config raw. envconfig_Process stub ''nsm'' = Inr config
         \<and> ReadConfig stub (SRIOVConfigFile config) = Inr raw
         \<and> UpdateConfig stub (PCIDevicesPath config) (PCIDriversPath config) raw = Inr 2)
   \<and> Call (C_ReadConfig ''pci.config'') \<in> set (trace (snd (main_to_block stub_no_file init_state)))
   \<and> phase_of (C_ReadConfig ''pci.config'' :: nat call) = 2
   \<and> call_error stub_no_file (C_ReadConfig ''pci.config'')
       = Some (Err ''open pci.config: no such file or directory'')
   \<and> fst (main_to_block stub_no_file init_state) = Exited 1
   \<and> fatal_with (Some (Err ''open pci.config: no such file or directory''))
       (last (trace (snd (main_to_block stub_no_file init_state))))"
proof -
  have run: "main_to_block stub init_state
      = (fst (main_to_block stub init_state), snd (main_to_block stub init_state))"
    by simp
  have rd: "Call (C_ReadConfig ''pci.config'') \<in> set (trace (snd (main_to_block stub init_state)))"
    by (simp add: run_defs stub_defs)
  have upd: "Call (C_UpdateConfig ''/sys/bus/pci/devices'' ''/sys/bus/pci/drivers'' 1)
       \<in> set (trace (snd (main_to_block stub init_state)))"
    by (simp add: run_defs stub_defs)
  have pool: "Call (C_pci_NewPool ''/sys/bus/pci/devices'' ''/sys/bus/pci/drivers'' ''/host/dev/vfio'' 2)
       \<in> set (trace (snd (main_to_block stub init_state)))"
    by (simp add: run_defs stub_defs)
  have run': "main_to_block stub_no_file init_state
      = (fst (main_to_block stub_no_file init_state), snd (main_to_block stub_no_file init_state))"
    by simp
  have rd': "Call (C_ReadConfig ''pci.config'') \<in> set (trace (snd (main_to_block stub_no_file init_state)))"
    by (simp add: run_defs stub_defs)
  have phase: "phase_of (C_ReadConfig ''pci.config'' :: nat call) = 2"
    by simp
  have err: "call_error stub_no_file (C_ReadConfig ''pci.config'')
      = Some (Err ''open pci.config: no such file or directory'')"
    by (simp add: stub_defs sum_err_def)
  from pools_see_discovered_config [OF run] pool
  have "\<exists>config raw. envconfig_Process stub ''nsm'' = Inr config
         \<and> ReadConfig stub (SRIOVConfigFile config) = Inr raw
         \<and> UpdateConfig stub (PCIDevicesPath config) (PCIDriversPath config) raw = Inr 2"
    by blast
  moreover from pools_see_discovered_config [OF run'] rd' phase err
  have "fst (main_to_block stub_no_file init_state) = Exited 1
      \<and> fatal_with (Some (Err ''open pci.config: no such file or directory''))
          (last (trace (snd (main_to_block stub_no_file init_state))))"
    by blast
  ultimately show ?thesis using rd upd pool rd' phase err by blast
qed

section \<open>The listening address\<close>

text \<open>
  Claim C9. Whatever configuration \<open>envconfig.Process\<close> yields, the URL that
  \<open>ListenAndServe\<close> is called with has scheme \<open>unix\<close>, the path
  \<open>path.Join(tmpDir, "listen_on.io.sock")\<close> for the directory that \<open>ioutil.TempDir\<close>
  has just created, and no other field set; and the URL of a submitted registration
  record is \<open>URLToTarget\<close> of that same URL.
\<close>

theorem listen_address_fixed:
  assumes run: "main_to_block (c\<lparr>envconfig_Process := P\<rparr>) init_state = (out, s)"
  shows "(\<forall>u srv. Call (C_ListenAndServe u srv) \<in> set (trace s) \<longrightarrow>
            (\<exists>tmpDir. TempDir c '''' ''sriov-forwarder'' = Inr tmpDir
               \<and> u = \<lparr>Scheme = ''unix'', Opaque = '''', Host = '''',
                      Path = path_Join c tmpDir ''listen_on.io.sock'',
                      RawQuery = '''', Fragment = ''''\<rparr>))
       \<and> (\<forall>rc nse. Call (C_Register rc nse) \<in> set (trace s) \<longrightarrow>
            (\<exists>tmpDir. TempDir c '''' ''sriov-forwarder'' = Inr tmpDir
               \<and> Url nse = URLToTarget c \<lparr>Scheme = ''unix'', Opaque = '''', Host = '''',
                      Path = path_Join c tmpDir ''listen_on.io.sock'',
                      RawQuery = '''', Fragment = ''''\<rparr>))"
proof (intro conjI allI impI)
  fix u srv
  assume "Call (C_ListenAndServe u srv) \<in> set (trace s)"
  from run_calls [OF run this]
  show "\<exists>tmpDir. TempDir c '''' ''sriov-forwarder'' = Inr tmpDir
          \<and> u = \<lparr>Scheme = ''unix'', Opaque = '''', Host = '''',
                 Path = path_Join c tmpDir ''listen_on.io.sock'', RawQuery = '''', Fragment = ''''\<rparr>"
    by (auto simp: listen_url_def URL_zero_def split: sum.splits)
next
  fix rc nse
  assume "Call (C_Register rc nse) \<in> set (trace s)"
  from run_calls [OF run this]
  show "\<exists>tmpDir. TempDir c '''' ''sriov-forwarder'' = Inr tmpDir
          \<and> Url nse = URLToTarget c \<lparr>Scheme = ''unix'', Opaque = '''', Host = '''',
                 Path = path_Join c tmpDir ''listen_on.io.sock'', RawQuery = '''', Fragment = ''''\<rparr>"
    by (auto simp: payload_def listen_url_def URL_zero_def split: sum.splits option.splits)
qed

theorem listen_address_fixed_witness:
  "Call (C_ListenAndServe \<lparr>Scheme = ''unix'', Opaque = '''', Host = '''',
       Path = ''/tmp/sriov-forwarder1/listen_on.io.sock'', RawQuery = '''', Fragment = ''''\<rparr> 13)
     \<in> set (trace (snd (main_to_block
          (stub\<lparr>envconfig_Process := \<lambda>prefix. Inr (example_config\<lparr>Name := ''other''\<rparr>)\<rparr>) init_state)))
   \<and> (\<exists>tmpDir. TempDir stub '''' ''sriov-forwarder'' = Inr tmpDir
         \<and> \<lparr>Scheme = ''unix'', Opaque = '''', Host = '''',
             Path = ''/tmp/sriov-forwarder1/listen_on.io.sock'', RawQuery = '''', Fragment = ''''\<rparr>
           = \<lparr>Scheme = ''unix'', Opaque = '''', Host = '''',
              Path = path_Join stub tmpDir ''listen_on.io.sock'', RawQuery = '''', Fragment = ''''\<rparr>)"
proof -
  let ?c = "stub\<lparr>envconfig_Process := \<lambda>prefix. Inr (example_config\<lparr>Name := ''other''\<rparr>)\<rparr>"
  have run: "main_to_block ?c init_state = (fst (main_to_block ?c init_state), snd (main_to_block ?c init_state))"
    by simp
  have started: "Call (C_ListenAndServe \<lparr>Scheme = ''unix'', Opaque = '''', Host = '''',
       Path = ''/tmp/sriov-forwarder1/listen_on.io.sock'', RawQuery = '''', Fragment = ''''\<rparr> 13)
     \<in> set (trace (snd (main_to_block ?c init_state)))"
    by (simp add: run_defs stub_defs)
  from listen_address_fixed [OF run] started show ?thesis
    by blast
qed

section \<open>The failure points of phase 8\<close>

text \<open>
  Claim C10. Phase 8 exits in exactly three ways: \<open>grpc.DialContext\<close> returns an
  error, \<open>ptypes.TimestampProto\<close> returns an error, or \<open>Register\<close> returns an error.
  In each of them the exit status is 1 and the last entry is written by \<open>Fatalf\<close> with
  the same format string \<open>failed to connect to registry: %+v\<close> and that error.
\<close>

theorem registry_failures_share_message:
  assumes run: "phase8 c config source listenOn starttime s = (Exited n, s')"
  shows "n = 1 \<and> (\<exists>e. last (trace s') = Logf FatalLevel ''failed to connect to registry: %+v'' [ArgErr (Some e)]
           \<and> (DialContext c (URLToTarget c (ConnectTo config)) (MTLSClientCreds c source) = Inl e
              \<or> (\<exists>registryCC. DialContext c (URLToTarget c (ConnectTo config)) (MTLSClientCreds c source)
                     = Inr registryCC
                  \<and> (TimestampProto c (clock c (Suc (ticks s)) + MaxTokenLifetime config) = Inl e
                     \<or> (\<exists>expireTime.
                           TimestampProto c (clock c (Suc (ticks s)) + MaxTokenLifetime config) = Inr expireTime
                         \<and> Register c (NewRegistryClient c registryCC)
                              \<lparr>nse_Name = Name config, NetworkServiceNames = [NSName config],
                               Url = URLToTarget c listenOn, ExpirationTime = expireTime\<rparr> = Some e)))))"
proof (cases "DialContext c (URLToTarget c (ConnectTo config)) (MTLSClientCreds c source)")
  case (Inl e)
  with run show ?thesis
    by (auto simp: phase8_def step_defs Let_def)
next
  case dial: (Inr registryCC)
  show ?thesis
  proof (cases "TimestampProto c (clock c (Suc (ticks s)) + MaxTokenLifetime config)")
    case (Inl e)
    with run dial show ?thesis
      by (auto simp: phase8_def step_defs Let_def)
  next
    case ts: (Inr expireTime)
    show ?thesis
    proof (cases "Register c (NewRegistryClient c registryCC)
                    \<lparr>nse_Name = Name config, NetworkServiceNames = [NSName config],
                     Url = URLToTarget c listenOn, ExpirationTime = expireTime\<rparr>")
      case None
      with run dial ts show ?thesis
        by (auto simp: phase8_def step_defs Let_def)
    next
      case (Some e)
      with run dial ts show ?thesis
        by (auto simp: phase8_def step_defs Let_def)
    qed
  qed
qed

theorem registry_failures_share_message_witness:
  "phase8 stub_no_dial example_config 7 URL_zero 1000 init_state
     = (Exited 1, snd (phase8 stub_no_dial example_config 7 URL_zero 1000 init_state))
   \<and> last (trace (snd (phase8 stub_no_dial example_config 7 URL_zero 1000 init_state)))
     = Logf FatalLevel ''failed to connect to registry: %+v'' [ArgErr (Some (Err ''context canceled''))]
   \<and> phase8 stub_no_timestamp example_config 7 URL_zero 1000 init_state
     = (Exited 1, snd (phase8 stub_no_timestamp example_config 7 URL_zero 1000 init_state))
   \<and> last (trace (snd (phase8 stub_no_timestamp example_config 7 URL_zero 1000 init_state)))
     = Logf FatalLevel ''failed to connect to registry: %+v''
         [ArgErr (Some (Err ''timestamp: after 10000-01-01''))]
   \<and> phase8 stub_no_register example_config 7 URL_zero 1000 init_state
     = (Exited 1, snd (phase8 stub_no_register example_config 7 URL_zero 1000 init_state))
   \<and> last (trace (snd (phase8 stub_no_register example_config 7 URL_zero 1000 init_state)))
     = Logf FatalLevel ''failed to connect to registry: %+v'' [ArgErr (Some (Err ''registry unavailable''))]"
proof -
  note ev = phase8_def step_defs Let_def stub_defs init_state_def URL_zero_def
  have d: "phase8 stub_no_dial example_config 7 URL_zero 1000 init_state
     = (Exited 1, snd (phase8 stub_no_dial example_config 7 URL_zero 1000 init_state))"
    by (simp add: ev)
  have t: "phase8 stub_no_timestamp example_config 7 URL_zero 1000 init_state
     = (Exited 1, snd (phase8 stub_no_timestamp example_config 7 URL_zero 1000 init_state))"
    by (simp add: ev)
  have r: "phase8 stub_no_register example_config 7 URL_zero 1000 init_state
     = (Exited 1, snd (phase8 stub_no_register example_config 7 URL_zero 1000 init_state))"
    by (simp add: ev)
  from registry_failures_share_message [OF d]
  have "last (trace (snd (phase8 stub_no_dial example_config 7 URL_zero 1000 init_state)))
     = Logf FatalLevel ''failed to connect to registry: %+v'' [ArgErr (Some (Err ''context canceled''))]"
    by (auto simp: stub_defs)
  moreover from registry_failures_share_message [OF t]
  have "last (trace (snd (phase8 stub_no_timestamp example_config 7 URL_zero 1000 init_state)))
     = Logf FatalLevel ''failed to connect to registry: %+v''
         [ArgErr (Some (Err ''timestamp: after 10000-01-01''))]"
    by (auto simp: stub_defs)
  moreover from registry_failures_share_message [OF r]
  have "last (trace (snd (phase8 stub_no_register example_config 7 URL_zero 1000 init_state)))
     = Logf FatalLevel ''failed to connect to registry: %+v'' [ArgErr (Some (Err ''registry unavailable''))]"
    by (auto simp: stub_defs)
  ultimately show ?thesis using d t r by blast
qed

section \<open>The temporary directory\<close>

text \<open>
  Claim C5 says that the directory of the listening socket is gone whenever the process
  has terminated. The deferred \<open>os.RemoveAll\<close> runs only when \<open>main\<close> returns; every
  \<open>Fatal\<close> call ends the process through \<open>os.Exit\<close>, which runs no deferred call.
  Here the registry refuses the registration: the process exits with status 1, the
  directory still exists and its removal is still on the stack of deferred calls.
\<close>

theorem tmpdir_survives_fatal_exit:
  "fst (main_to_block stub_no_register init_state) = Exited 1
   \<and> fs (snd (main_to_block stub_no_register init_state)) = {''/tmp/sriov-forwarder1''}
   \<and> defers (snd (main_to_block stub_no_register init_state))
       = [D_RemoveAll ''/tmp/sriov-forwarder1'', D_JaegerClose]"
  by (simp add: run_defs stub_defs)

text \<open>When \<open>main\<close> returns, the deferred calls remove every directory they were given.\<close>

lemma fold_run_deferred:
  "fs (fold run_deferred ds s) = fs s - {p. D_RemoveAll p \<in> set ds}
   \<and> watcher (fold run_deferred ds s) = watcher s
   \<and> errCh (fold run_deferred ds s) = errCh s
   \<and> ctx_done (fold run_deferred ds s) = ctx_done s
   \<and> watcher_events (trace (fold run_deferred ds s)) = watcher_events (trace s)"
proof (induction ds arbitrary: s)
  case Nil
  show ?case by simp
next
  case (Cons d ds)
  show ?case
  proof (cases d)
    case D_JaegerClose
    with Cons [of "run_deferred d s"] show ?thesis
      by (auto simp: emit_def watcher_events_def)
  next
    case (D_RemoveAll p)
    with Cons [of "run_deferred d s"] show ?thesis
      by (auto simp: emit_def watcher_events_def)
  qed
qed

lemma main_return_removes:
  assumes "owns_tmpdir c s"
  shows "fs (main_return s) = {}"
  using assms fold_run_deferred [of "defers s" s]
  by (cases "TempDir c '''' ''sriov-forwarder''") (auto simp: main_return_def owns_tmpdir_def)

section \<open>Running\<close>

lemma ev_ok_main:
  assumes "ev_ok c k ev"
  shows "\<not> watcher_event ev" and "\<not> success_entry ev"
proof -
  show "\<not> watcher_event ev"
  proof (cases ev)
    case (Call cl)
    with assms show ?thesis by (cases cl) simp_all
  qed (use assms in simp_all)
  show "\<not> success_entry ev"
    using assms by (cases ev) simp_all
qed

lemma clean_main:
  assumes "clean c k t"
  shows "watcher_events t = []" and "filter success_entry t = []"
  using assms ev_ok_main [of c k]
  by (auto simp: clean_def watcher_events_def list_all_iff filter_empty_conv)

lemma fatal_with_main:
  assumes "fatal_with v lg"
  shows "\<not> watcher_event lg" and "\<not> success_entry lg"
  using assms by (cases lg; simp)+

lemma failed_main:
  assumes "failed c t"
  shows "watcher_events t = []"
proof -
  from assms obtain pre cl lg v where t: "t = pre @ [Call cl, lg]" and fw: "fatal_with v lg"
    and ph: "1 \<le> phase_of cl" and cl: "clean c (phase_of cl) pre"
    by (rule failedD)
  from ph have "cl \<noteq> C_cancel" by auto
  with t clean_main(1) [OF cl] fatal_with_main(1) [OF fw] show ?thesis
    by (simp add: watcher_events_def)
qed

lemma clean_not_registered:
  assumes cl: "clean c k t" and k: "k \<le> 8"
  shows "\<not> registered c t"
proof
  assume "registered c t"
  then obtain ev where ev: "ev \<in> set t" and ok: "register_ok c ev"
    by (auto simp: registered_def list_ex_iff)
  from ok obtain cl' where "ev = Call cl'" and "call_register_ok c cl'"
    by (cases ev) auto
  then obtain rc nse where "ev = Call (C_Register rc nse)"
    by (cases cl') auto
  with clean_event [OF cl ev] k show False by simp
qed

lemma failed_not_registered:
  assumes "failed c t"
  shows "\<not> registered c t"
proof
  assume "registered c t"
  then obtain ev where ev: "ev \<in> set t" and ok: "register_ok c ev"
    by (auto simp: registered_def list_ex_iff)
  from ok obtain cl' where "ev = Call cl'" and "call_register_ok c cl'"
    by (cases ev) auto
  then obtain rc nse where e: "ev = Call (C_Register rc nse)" and nil: "Register c rc nse = None"
    by (cases cl') auto
  from assms obtain pre cl0 lg v where t: "t = pre @ [Call cl0, lg]"
    and fv: "fatal_value c cl0 = Some v" and fw: "fatal_with v lg"
    and p8: "phase_of cl0 \<le> 8" and cl: "clean c (phase_of cl0) pre"
    by (rule failedD)
  from ev e t fatal_with_no_call [OF fw]
  have "Call (C_Register rc nse) \<in> set pre \<or> cl0 = C_Register rc nse" by auto
  then show False
  proof
    assume "Call (C_Register rc nse) \<in> set pre"
    from clean_event [OF cl this] p8 show False by simp
  next
    assume "cl0 = C_Register rc nse"
    with fv nil show False by simp
  qed
qed

text \<open>
  The run of \<open>main\<close> taken alone: when its \<open>Register\<close> call has returned without
  error it does not exit, and the success message is its last event and occurs once.
\<close>

lemma registered_run_completes:
  assumes run: "main_to_block c init_state = (out, s)"
    and reg: "Call (C_Register rc nse) \<in> set (trace s)"
    and ok: "Register c rc nse = None"
  shows "out = Next ()
       \<and> (\<exists>pre. trace s = pre @ [Logf InfoLevel ''Startup completed in %v'' [ArgDur (clock c 10 - clock c 0)]]
                \<and> filter success_entry pre = [])
       \<and> length (filter success_entry (trace s)) = 1"
proof -
  from reg ok have r: "registered c (trace s)"
    by (auto simp: registered_def list_ex_iff intro!: bexI [of _ "Call (C_Register rc nse)"])
  from main_run [OF run] show ?thesis
  proof (elim disjE conjE)
    assume out: "out = Next ()" and "running c s"
    then have "completed c (trace s)" by (simp add: running_def)
    then obtain pre where t: "trace s = pre @ [Logf InfoLevel ''Startup completed in %v''
          [ArgDur (clock c 10 - clock c 0)]]" and cl: "clean c 9 pre"
      by (rule completedD)
    from clean_main(2) [OF cl] have none: "filter success_entry pre = []" .
    with t have "length (filter success_entry (trace s)) = 1" by simp
    with out t none show ?thesis by blast
  next
    assume "crashed c s"
    then have "failed c (trace s)" by (simp add: crashed_def)
    from failed_not_registered [OF this] r show ?thesis by simp
  qed
qed

text \<open>What phase 8 adds to the trace, from any state.\<close>

lemma phase8_effect:
  assumes run: "phase8 c config source listenOn starttime s = (r, s')"
  shows "ctx_done s' = ctx_done s
       \<and> (case r of
            Next u \<Rightarrow>
              filter success_entry (trace s') = filter success_entry (trace s)
                 @ [Logf InfoLevel ''Startup completed in %v''
                      [ArgDur (clock c (Suc (Suc (ticks s))) - starttime)]]
              \<and> main_events (trace s') \<noteq> []
              \<and> last (main_events (trace s'))
                  = Logf InfoLevel ''Startup completed in %v''
                      [ArgDur (clock c (Suc (Suc (ticks s))) - starttime)]
          | Exited n \<Rightarrow>
              n = 1 \<and> filter success_entry (trace s') = filter success_entry (trace s)
              \<and> (registered c (trace s') \<longrightarrow> registered c (trace s)))"
proof (cases "DialContext c (URLToTarget c (ConnectTo config)) (MTLSClientCreds c source)")
  case (Inl e)
  with run show ?thesis
    by (auto simp: phase8_def step_defs Let_def registered_def)
next
  case dial: (Inr registryCC)
  show ?thesis
  proof (cases "TimestampProto c (clock c (Suc (ticks s)) + MaxTokenLifetime config)")
    case (Inl e)
    with run dial show ?thesis
      by (auto simp: phase8_def step_defs Let_def registered_def)
  next
    case ts: (Inr expireTime)
    show ?thesis
    proof (cases "Register c (NewRegistryClient c registryCC)
                    \<lparr>nse_Name = Name config, NetworkServiceNames = [NSName config],
                     Url = URLToTarget c listenOn, ExpirationTime = expireTime\<rparr>")
      case None
      with run dial ts show ?thesis
        by (auto simp: phase8_def step_defs Let_def main_events_def)
    next
      case (Some e)
      with run dial ts show ?thesis
        by (auto simp: phase8_def step_defs Let_def registered_def)
    qed
  qed
qed

lemma main_return_run:
  "ctx_done (main_return s) = ctx_done s
   \<and> filter success_entry (trace (main_return s)) = filter success_entry (trace s)"
proof -
  have "ctx_done (fold run_deferred ds s0) = ctx_done s0
      \<and> filter success_entry (trace (fold run_deferred ds s0)) = filter success_entry (trace s0)"
    for ds and s0 :: "'a pstate"
  proof (induction ds arbitrary: s0)
    case Nil
    show ?case by simp
  next
    case (Cons d ds)
    from Cons [of "run_deferred d s0"] show ?case
      by (cases d) (auto simp: emit_def)
  qed
  then show ?thesis by (simp add: main_return_def)
qed

lemma run_inv_step:
  assumes inv: "run_inv c p" and st: "step c a p p'"
  shows "run_inv c p'"
  using st
proof (cases rule: step.cases)
  case (main_startup_fatal s n s')
  with inv have "initial s" by (simp add: run_inv_def)
  from tripleD [OF startup_triple this main_startup_fatal(4)]
  have "n = 1" and "failed c (trace s')" by (simp_all add: crashed_def)
  with main_startup_fatal failed_not_registered [of c "trace s'"] show ?thesis
    by (simp add: run_inv_def)
next
  case (main_startup_ok s config source listenOn starttime s')
  with inv have "initial s" by (simp add: run_inv_def)
  from tripleD [OF startup_triple this main_startup_ok(4)]
  have st0: "starttime = clock c 0" and l: "listening c s'" by simp_all
  from l have cl: "clean c 7 (trace s')" and t: "ticks s' = 8" by (simp_all add: listening_def)
  from clean_not_registered [OF cl] clean_main(2) [OF cl] st0 t main_startup_ok show ?thesis
    by (simp add: run_inv_def)
next
  case (main_phase8_fatal config source listenOn starttime s n s')
  with inv phase8_effect [OF main_phase8_fatal(4)] show ?thesis
    by (auto simp: run_inv_def)
next
  case (main_phase8_ok config source listenOn starttime s u s')
  with inv phase8_effect [OF main_phase8_ok(4)] show ?thesis
    by (auto simp: run_inv_def success_message_def)
next
  case (main_done s)
  with inv main_return_run [of s] show ?thesis
    by (simp add: run_inv_def)
next
  case (watcher_recv pc s e ch')
  with inv show ?thesis
    by (cases pc) (auto simp: run_inv_def emit_def initial_def registered_def main_events_def)
next
  case (watcher_log pc s e)
  with inv show ?thesis
    by (cases pc) (auto simp: run_inv_def emit_def initial_def registered_def main_events_def)
next
  case (watcher_cancel pc s e)
  with inv show ?thesis
    by (cases pc) (auto simp: run_inv_def emit_def initial_def registered_def main_events_def)
next
  case (transport_send pc s v)
  with inv show ?thesis
    by (cases pc) (auto simp: run_inv_def initial_def)
next
  case (transport_close pc s)
  with inv show ?thesis
    by (cases pc) (auto simp: run_inv_def initial_def)
next
  case (signal pc s)
  with inv show ?thesis
    by (cases pc) (auto simp: run_inv_def initial_def)
qed

lemma reachable_run_inv: "reachable c p \<Longrightarrow> run_inv c p"
proof (induction rule: reachable.induct)
  case reach_init
  show ?case by (simp add: run_inv_def initial_init_state)
next
  case (reach_step p a p')
  then show ?case by (blast intro: run_inv_step)
qed

text \<open>A step of another task leaves a blocked \<open>main\<close> blocked and adds no event of \<open>main\<close>.\<close>

lemma blocked_step:
  assumes "step c a (M_Blocked, s) p'"
  shows "(a = Main \<longrightarrow> ctx_done s \<and> p' = (M_Exited 0, main_return s))
       \<and> (a \<noteq> Main \<longrightarrow> fst p' = M_Blocked \<and> main_events (trace (snd p')) = main_events (trace s))"
  using assms by (cases rule: step.cases) (auto simp: emit_def main_events_def)

text \<open>
  Claim C6. In every reachable state of the process in which a \<open>Register\<close> call has
  returned without error, \<open>main\<close> is blocked in the receive from \<open>ctx.Done()\<close>, or it has
  returned and \<open>ctx\<close> is canceled; so while \<open>ctx\<close> is not canceled it is blocked. The
  success message occurs exactly once in the trace and carries the time between the
  first clock reading (the start time) and the reading taken for the message; while
  \<open>main\<close> is blocked it is the last event of \<open>main\<close>. From the blocked state the only
  step of \<open>main\<close> is the return that runs the deferred calls and ends the process with
  status 0, and it needs \<open>ctx\<close> canceled; every step of another task leaves \<open>main\<close>
  blocked and adds no event of \<open>main\<close>.
\<close>

theorem running_until_canceled:
  assumes reach: "reachable c (pc, s)"
    and reg: "Call (C_Register rc nse) \<in> set (trace s)"
    and ok: "Register c rc nse = None"
  shows "(pc = M_Blocked \<or> pc = M_Exited 0)
       \<and> (pc = M_Exited 0 \<longrightarrow> ctx_done s)
       \<and> (\<not> ctx_done s \<longrightarrow> pc = M_Blocked)
       \<and> filter success_entry (trace s)
           = [Logf InfoLevel ''Startup completed in %v'' [ArgDur (clock c 10 - clock c 0)]]
       \<and> (pc = M_Blocked \<longrightarrow>
            last (main_events (trace s))
              = Logf InfoLevel ''Startup completed in %v'' [ArgDur (clock c 10 - clock c 0)])
       \<and> (pc = M_Blocked \<longrightarrow>
            (\<forall>a p'. step c a (pc, s) p' \<longrightarrow>
               (a = Main \<longrightarrow> ctx_done s \<and> p' = (M_Exited 0, main_return s))
             \<and> (a \<noteq> Main \<longrightarrow> fst p' = M_Blocked
                   \<and> main_events (trace (snd p')) = main_events (trace s))))"
proof -
  from reg ok have r: "registered c (trace s)"
    by (auto simp: registered_def list_ex_iff intro!: bexI [of _ "Call (C_Register rc nse)"])
  note inv = reachable_run_inv [OF reach]
  have pc: "pc = M_Blocked \<or> pc = M_Exited 0"
  proof (cases pc)
    case M_Start
    with inv reg show ?thesis by (simp add: run_inv_def initial_def)
  next
    case (M_Phase8 config source listenOn starttime)
    with inv r show ?thesis by (simp add: run_inv_def)
  next
    case M_Blocked
    then show ?thesis by simp
  next
    case (M_Exited n)
    with inv r show ?thesis by (cases "n = 0") (simp_all add: run_inv_def)
  qed
  have canceled: "ctx_done s" if "pc = M_Exited 0"
    using inv that by (simp add: run_inv_def)
  have once: "filter success_entry (trace s)
      = [Logf InfoLevel ''Startup completed in %v'' [ArgDur (clock c 10 - clock c 0)]]"
    using pc inv by (auto simp: run_inv_def success_message_def)
  have lst: "last (main_events (trace s))
      = Logf InfoLevel ''Startup completed in %v'' [ArgDur (clock c 10 - clock c 0)]"
    if "pc = M_Blocked"
    using inv that by (simp add: run_inv_def success_message_def)
  have blocked: "(a = Main \<longrightarrow> ctx_done s \<and> p' = (M_Exited 0, main_return s))
       \<and> (a \<noteq> Main \<longrightarrow> fst p' = M_Blocked \<and> main_events (trace (snd p')) = main_events (trace s))"
    if "pc = M_Blocked" and "step c a (pc, s) p'" for a p'
    using that blocked_step [of c a s p'] by simp
  from pc canceled once lst blocked show ?thesis by blast
qed

theorem running_until_canceled_witness:
  "\<exists>s s'. reachable stub (M_Blocked, s)
     \<and> Call (C_Register 15 \<lparr>nse_Name = ''nse-1'', NetworkServiceNames = [''svc-A''],
            Url = ''unix:/tmp/sriov-forwarder1/listen_on.io.sock'',
            ExpirationTime = \<lparr>Seconds = 3600, Nanos = 1009\<rparr>\<rparr>) \<in> set (trace s)
     \<and> Register stub 15 \<lparr>nse_Name = ''nse-1'', NetworkServiceNames = [''svc-A''],
            Url = ''unix:/tmp/sriov-forwarder1/listen_on.io.sock'',
            ExpirationTime = \<lparr>Seconds = 3600, Nanos = 1009\<rparr>\<rparr> = None
     \<and> \<not> ctx_done s
     \<and> filter success_entry (trace s) = [Logf InfoLevel ''Startup completed in %v'' [ArgDur 10]]
     \<and> last (main_events (trace s)) = Logf InfoLevel ''Startup completed in %v'' [ArgDur 10]
     \<and> reachable stub (M_Exited 0, s')
     \<and> Call (C_Register 15 \<lparr>nse_Name = ''nse-1'', NetworkServiceNames = [''svc-A''],
            Url = ''unix:/tmp/sriov-forwarder1/listen_on.io.sock'',
            ExpirationTime = \<lparr>Seconds = 3600, Nanos = 1009\<rparr>\<rparr>) \<in> set (trace s')
     \<and> ctx_done s'"
proof -
  let ?u = "\<lparr>Scheme = ''unix'', Opaque = '''', Host = '''',
       Path = ''/tmp/sriov-forwarder1/listen_on.io.sock'', RawQuery = '''', Fragment = ''''\<rparr>"
  let ?nse = "\<lparr>nse_Name = ''nse-1'', NetworkServiceNames = [''svc-A''],
            Url = ''unix:/tmp/sriov-forwarder1/listen_on.io.sock'',
            ExpirationTime = \<lparr>Seconds = 3600, Nanos = 1009\<rparr>\<rparr>"
  let ?s1 = "snd (startup stub init_state)"
  let ?s2 = "snd (phase8 stub example_config 7 ?u 1000 ?s1)"
  let ?s3 = "?s2\<lparr>ctx_done := True\<rparr>"
  have st: "startup stub init_state = (Next (example_config, 7, ?u, 1000), ?s1)"
    by (simp add: run_defs stub_defs)
  have p8: "phase8 stub example_config 7 ?u 1000 ?s1 = (Next (), ?s2)"
    by (simp add: phase8_def step_defs Let_def stub_defs)
  have r1: "reachable stub (M_Phase8 example_config 7 ?u 1000, ?s1)"
    by (rule reach_step [OF reach_init main_startup_ok [OF st]])
  have r2: "reachable stub (M_Blocked, ?s2)"
    by (rule reach_step [OF r1 main_phase8_ok [OF p8]])
  have r3: "reachable stub (M_Blocked, ?s3)"
    by (rule reach_step [OF r2 signal]) simp
  have r4: "reachable stub (M_Exited 0, main_return ?s3)"
    by (rule reach_step [OF r3 main_done]) simp
  have reg: "Call (C_Register 15 ?nse) \<in> set (trace ?s2)"
    by (simp add: run_defs stub_defs)
  have quiet: "\<not> ctx_done ?s2"
    by (simp add: run_defs stub_defs)
  have reg': "Call (C_Register 15 ?nse) \<in> set (trace (main_return ?s3))"
    by (simp add: main_return_def run_defs stub_defs)
  have ok: "Register stub 15 ?nse = None"
    by (simp add: stub_def)
  from running_until_canceled [OF r2 reg ok]
  have "filter success_entry (trace ?s2) = [Logf InfoLevel ''Startup completed in %v'' [ArgDur 10]]"
    and "last (main_events (trace ?s2)) = Logf InfoLevel ''Startup completed in %v'' [ArgDur 10]"
    by (simp_all add: stub_def)
  moreover from running_until_canceled [OF r4 reg' ok] have "ctx_done (main_return ?s3)"
    by simp
  ultimately show ?thesis using r2 r4 reg reg' ok quiet by blast
qed

section \<open>The watcher goroutine\<close>

lemma startup_watcher:
  assumes init: "initial s" and run: "startup c s = (r, s')"
  shows "watcher_events (trace s') = []"
    and "case r of Next x \<Rightarrow> watcher s' = W_Recv | Exited n \<Rightarrow> watcher s' = W_None \<or> watcher s' = W_Recv"
proof -
  note post = tripleD [OF startup_triple init run]
  show "watcher_events (trace s') = []"
  proof (cases r)
    case (Exited n)
    with post show ?thesis by (auto simp: crashed_def intro: failed_main)
  next
    case (Next x)
    with post have "listening c s'" by (cases x) simp
    then show ?thesis by (auto simp: listening_def intro: clean_main(1))
  qed
  show "case r of Next x \<Rightarrow> watcher s' = W_Recv | Exited n \<Rightarrow> watcher s' = W_None \<or> watcher s' = W_Recv"
  proof (cases r)
    case (Exited n)
    with post show ?thesis by (simp add: crashed_def)
  next
    case (Next x)
    with post have "listening c s'" by (cases x) simp
    with Next show ?thesis by (simp add: listening_def)
  qed
qed

lemma phase8_watcher:
  assumes run: "phase8 c config source listenOn starttime s = (r, s')"
  shows "watcher s' = watcher s \<and> watcher_events (trace s') = watcher_events (trace s)"
proof (cases "DialContext c (URLToTarget c (ConnectTo config)) (MTLSClientCreds c source)")
  case (Inl e)
  with run show ?thesis
    by (auto simp: phase8_def step_defs Let_def watcher_events_def)
next
  case dial: (Inr registryCC)
  show ?thesis
  proof (cases "TimestampProto c (clock c (Suc (ticks s)) + MaxTokenLifetime config)")
    case (Inl e)
    with run dial show ?thesis
      by (auto simp: phase8_def step_defs Let_def watcher_events_def)
  next
    case ts: (Inr expireTime)
    show ?thesis
    proof (cases "Register c (NewRegistryClient c registryCC)
                    \<lparr>nse_Name = Name config, NetworkServiceNames = [NSName config],
                     Url = URLToTarget c listenOn, ExpirationTime = expireTime\<rparr>")
      case None
      with run dial ts show ?thesis
        by (auto simp: phase8_def step_defs Let_def watcher_events_def)
    next
      case (Some e)
      with run dial ts show ?thesis
        by (auto simp: phase8_def step_defs Let_def watcher_events_def)
    qed
  qed
qed

lemma main_return_watcher:
  "watcher (main_return s) = watcher s \<and> watcher_events (trace (main_return s)) = watcher_events (trace s)"
  using fold_run_deferred [of "defers s" s] by (simp add: main_return_def)

lemma proc_inv_step:
  assumes inv: "proc_inv p" and st: "step c a p p'"
  shows "proc_inv p'"
  using st
proof (cases rule: step.cases)
  case (main_startup_fatal s n s')
  with inv have "initial s" by (simp add: proc_inv_def)
  from startup_watcher [OF this main_startup_fatal(4)] main_startup_fatal show ?thesis
    by (auto simp: proc_inv_def)
next
  case (main_startup_ok s config source listenOn starttime s')
  with inv have "initial s" by (simp add: proc_inv_def)
  from startup_watcher [OF this main_startup_ok(4)] main_startup_ok show ?thesis
    by (auto simp: proc_inv_def)
next
  case (main_phase8_fatal config source listenOn starttime s n s')
  with inv phase8_watcher [OF main_phase8_fatal(4)] show ?thesis
    by (auto simp: proc_inv_def)
next
  case (main_phase8_ok config source listenOn starttime s u s')
  with inv phase8_watcher [OF main_phase8_ok(4)] show ?thesis
    by (auto simp: proc_inv_def)
next
  case (main_done s)
  with inv main_return_watcher [of s] show ?thesis
    by (auto simp: proc_inv_def)
next
  case (watcher_recv pc s e ch')
  with inv show ?thesis
    by (cases pc) (auto simp: proc_inv_def emit_def watcher_events_def initial_def)
next
  case (watcher_log pc s e)
  with inv show ?thesis
    by (cases pc) (auto simp: proc_inv_def emit_def watcher_events_def initial_def)
next
  case (watcher_cancel pc s e)
  with inv show ?thesis
    by (cases pc) (auto simp: proc_inv_def emit_def watcher_events_def initial_def)
next
  case (transport_send pc s v)
  with inv show ?thesis
    by (cases pc) (auto simp: proc_inv_def initial_def)
next
  case (transport_close pc s)
  with inv show ?thesis
    by (cases pc) (auto simp: proc_inv_def initial_def)
next
  case (signal pc s)
  with inv show ?thesis
    by (cases pc) (auto simp: proc_inv_def initial_def)
qed

lemma reachable_inv: "reachable c p \<Longrightarrow> proc_inv p"
proof (induction rule: reachable.induct)
  case reach_init
  show ?case
    by (simp add: proc_inv_def initial_init_state) (simp add: init_state_def watcher_events_def)
next
  case (reach_step p a p')
  then show ?case by (blast intro: proc_inv_step)
qed

lemma cancel_is_watcher_event:
  "filter (\<lambda>ev. ev = Call C_cancel) t = filter (\<lambda>ev. ev = Call C_cancel) (watcher_events t)"
  by (induction t) (auto simp: watcher_events_def)

text \<open>
  Claim C3. In every reachable state of the process the watcher's events in the trace
  are an initial part of: one receive from the error channel, the error-level entry for
  the received value, one call of \<open>cancel\<close>. So the watcher calls \<open>cancel\<close> only after
  it has received a value, and at most once; \<open>main\<close> itself never calls it. While
  \<open>main\<close> is in phase 8 or blocked, the watcher exists, and as long as nothing can
  be received from the channel it has no step. (A signal may cancel \<open>ctx\<close> at any time
  without any of this.)
\<close>

theorem watcher_protocol:
  assumes "reachable c (pc, s)"
  shows "(\<exists>e. prefix (watcher_events (trace s)) [Recv e, Logv ErrorLevel [ArgErr e], Call C_cancel])
       \<and> length (filter (\<lambda>ev. ev = Call C_cancel) (trace s)) \<le> 1
       \<and> (pc = M_Blocked \<or> (\<exists>config source listenOn starttime. pc = M_Phase8 config source listenOn starttime)
            \<longrightarrow> watcher s \<noteq> W_None)
       \<and> (watcher s = W_Recv \<and> chan_recv (errCh s) = None \<longrightarrow> (\<forall>p'. \<not> step c Watcher (pc, s) p'))"
proof -
  from reachable_inv [OF assms]
  have wd: "watcher_done (watcher s) (watcher_events (trace s))"
    and started: "pc = M_Blocked \<or> (\<exists>config source listenOn starttime.
          pc = M_Phase8 config source listenOn starttime) \<longrightarrow> watcher s \<noteq> W_None"
    by (auto simp: proc_inv_def)
  from wd have shape: "\<exists>e. prefix (watcher_events (trace s)) [Recv e, Logv ErrorLevel [ArgErr e], Call C_cancel]"
    by (cases "watcher s") auto
  then obtain e where "prefix (watcher_events (trace s)) [Recv e, Logv ErrorLevel [ArgErr e], Call C_cancel]" ..
  then obtain rest where "[Recv e, Logv ErrorLevel [ArgErr e], Call C_cancel] = watcher_events (trace s) @ rest"
    by (auto simp: prefix_def)
  then have "length (filter (\<lambda>ev. ev = Call C_cancel) (watcher_events (trace s) @ rest)) = 1"
    by (simp flip: \<open>[Recv e, Logv ErrorLevel [ArgErr e], Call C_cancel] = watcher_events (trace s) @ rest\<close>)
  then have once: "length (filter (\<lambda>ev. ev = Call C_cancel) (trace s)) \<le> 1"
    by (simp add: cancel_is_watcher_event [of "trace s"])
  have blocked: "\<not> step c Watcher (pc, s) p'" if "watcher s = W_Recv \<and> chan_recv (errCh s) = None" for p'
  proof
    assume "step c Watcher (pc, s) p'"
    then show False using that by (cases rule: step.cases) auto
  qed
  from shape once started blocked show ?thesis by blast
qed

theorem watcher_protocol_witness:
  "\<exists>pc s. reachable stub (pc, s)
     \<and> watcher_events (trace s)
         = [Recv (Some (Err ''serve failed'')), Logv ErrorLevel [ArgErr (Some (Err ''serve failed''))],
            Call C_cancel]
     \<and> length (filter (\<lambda>ev. ev = Call C_cancel) (trace s)) \<le> 1
     \<and> Call C_cancel \<in> set (trace s)
     \<and> watcher s = W_Done (Some (Err ''serve failed''))
     \<and> ctx_done s"
proof -
  let ?e = "Some (Err ''serve failed'')"
  let ?u = "\<lparr>Scheme = ''unix'', Opaque = '''', Host = '''',
       Path = ''/tmp/sriov-forwarder1/listen_on.io.sock'', RawQuery = '''', Fragment = ''''\<rparr>"
  let ?pc = "M_Phase8 example_config 7 ?u 1000 :: nat mpc"
  let ?s1 = "snd (startup stub init_state)"
  let ?s2 = "?s1\<lparr>errCh := (errCh ?s1)\<lparr>buf := [?e]\<rparr>\<rparr>"
  let ?s3 = "emit (Recv ?e) (?s2\<lparr>errCh := (errCh ?s2)\<lparr>buf := []\<rparr>, watcher := W_Log ?e\<rparr>)"
  let ?s4 = "emit (Logv ErrorLevel [ArgErr ?e]) (?s3\<lparr>watcher := W_Cancel ?e\<rparr>)"
  let ?s5 = "emit (Call C_cancel) (?s4\<lparr>ctx_done := True, watcher := W_Done ?e\<rparr>)"
  have st: "startup stub init_state = (Next (example_config, 7, ?u, 1000), ?s1)"
    by (simp add: run_defs stub_defs)
  have s1: "serving ?s1" "\<not> closed (errCh ?s1)" "buf (errCh ?s1) = []" "watcher ?s1 = W_Recv"
    "watcher_events (trace ?s1) = []"
    by (simp_all add: run_defs stub_defs watcher_events_def)
  have r1: "reachable stub (?pc, ?s1)"
    by (rule reach_step [OF reach_init main_startup_ok [OF st]])
  have r2: "reachable stub (?pc, ?s2)"
    by (rule reach_step [OF r1 transport_send]) (simp_all add: s1)
  have r3: "reachable stub (?pc, ?s3)"
    by (rule reach_step [OF r2 watcher_recv]) (simp_all add: s1 chan_recv_def)
  have r4: "reachable stub (?pc, ?s4)"
    by (rule reach_step [OF r3 watcher_log]) (simp_all add: emit_def)
  have r5: "reachable stub (?pc, ?s5)"
    by (rule reach_step [OF r4 watcher_cancel]) (simp_all add: emit_def)
  have ev: "watcher_events (trace ?s5) = [Recv ?e, Logv ErrorLevel [ArgErr ?e], Call C_cancel]"
    using s1(5) by (simp add: emit_def watcher_events_def)
  have fin: "Call C_cancel \<in> set (trace ?s5)" "watcher ?s5 = W_Done ?e" "ctx_done ?s5"
    by (simp_all add: emit_def)
  from watcher_protocol [OF r5]
  have "length (filter (\<lambda>ev. ev = Call C_cancel) (trace ?s5)) \<le> 1"
    by blast
  with r5 ev fin show ?thesis by blast
qed

section \<open>The temporary directory on the normal return\<close>

lemma phase8_frame:
  assumes run: "phase8 c config source listenOn starttime s = (r, s')"
  shows "fs s' = fs s \<and> defers s' = defers s \<and> (r = Next () \<or> r = Exited 1)"
proof (cases "DialContext c (URLToTarget c (ConnectTo config)) (MTLSClientCreds c source)")
  case (Inl e)
  with run show ?thesis
    by (auto simp: phase8_def step_defs Let_def)
next
  case dial: (Inr registryCC)
  show ?thesis
  proof (cases "TimestampProto c (clock c (Suc (ticks s)) + MaxTokenLifetime config)")
    case (Inl e)
    with run dial show ?thesis
      by (auto simp: phase8_def step_defs Let_def)
  next
    case ts: (Inr expireTime)
    show ?thesis
    proof (cases "Register c (NewRegistryClient c registryCC)
                    \<lparr>nse_Name = Name config, NetworkServiceNames = [NSName config],
                     Url = URLToTarget c listenOn, ExpirationTime = expireTime\<rparr>")
      case None
      with run dial ts show ?thesis
        by (auto simp: phase8_def step_defs Let_def)
    next
      case (Some e)
      with run dial ts show ?thesis
        by (auto simp: phase8_def step_defs Let_def)
    qed
  qed
qed

lemma dir_inv_step:
  assumes inv: "dir_inv c p" and st: "step c a p p'"
  shows "dir_inv c p'"
  using st
proof (cases rule: step.cases)
  case (main_startup_fatal s n s')
  with inv have "initial s" by (simp add: dir_inv_def)
  from tripleD [OF startup_triple this main_startup_fatal(4)] main_startup_fatal show ?thesis
    by (simp add: dir_inv_def)
next
  case (main_startup_ok s config source listenOn starttime s')
  with inv have "initial s" by (simp add: dir_inv_def)
  from tripleD [OF startup_triple this main_startup_ok(4)] main_startup_ok show ?thesis
    by (simp add: dir_inv_def listening_def)
next
  case (main_phase8_fatal config source listenOn starttime s n s')
  with phase8_frame [OF main_phase8_fatal(4)] show ?thesis
    by (simp add: dir_inv_def)
next
  case (main_phase8_ok config source listenOn starttime s u s')
  with inv owns_tmpdir_cong [of s' s c] phase8_frame [OF main_phase8_ok(4)] show ?thesis
    by (simp add: dir_inv_def)
next
  case (main_done s)
  with inv main_return_removes [of c s] show ?thesis
    by (simp add: dir_inv_def)
next
  case (watcher_recv pc s e ch')
  with inv owns_tmpdir_cong [of "snd p'" s c] show ?thesis
    by (cases pc) (auto simp: dir_inv_def emit_def initial_def)
next
  case (watcher_log pc s e)
  with inv owns_tmpdir_cong [of "snd p'" s c] show ?thesis
    by (cases pc) (auto simp: dir_inv_def emit_def initial_def)
next
  case (watcher_cancel pc s e)
  with inv owns_tmpdir_cong [of "snd p'" s c] show ?thesis
    by (cases pc) (auto simp: dir_inv_def emit_def initial_def)
next
  case (transport_send pc s v)
  with inv owns_tmpdir_cong [of "snd p'" s c] show ?thesis
    by (cases pc) (auto simp: dir_inv_def initial_def)
next
  case (transport_close pc s)
  with inv owns_tmpdir_cong [of "snd p'" s c] show ?thesis
    by (cases pc) (auto simp: dir_inv_def initial_def)
next
  case (signal pc s)
  with inv owns_tmpdir_cong [of "snd p'" s c] show ?thesis
    by (cases pc) (auto simp: dir_inv_def initial_def)
qed

lemma reachable_dir_inv: "reachable c p \<Longrightarrow> dir_inv c p"
proof (induction rule: reachable.induct)
  case reach_init
  show ?case by (simp add: dir_inv_def initial_init_state)
next
  case (reach_step p a p')
  then show ?case by (blast intro: dir_inv_step)
qed

text \<open>
  While \<open>main\<close> is in phase 8 or blocked, the directory that \<open>ioutil.TempDir\<close> created
  exists and its removal is the newest deferred call; when \<open>main\<close> has returned (exit
  status 0), which it does only after \<open>ctx\<close> is canceled, the directory is gone.
\<close>

theorem tmpdir_removed_on_return:
  assumes "reachable c (pc, s)"
  shows "(pc = M_Blocked \<or> (\<exists>config source listenOn starttime. pc = M_Phase8 config source listenOn starttime)
            \<longrightarrow> (\<exists>tmpDir. TempDir c '''' ''sriov-forwarder'' = Inr tmpDir \<and> fs s = {tmpDir}
                   \<and> defers s = [D_RemoveAll tmpDir, D_JaegerClose]))
       \<and> (pc = M_Exited 0 \<longrightarrow> fs s = {})"
proof -
  from reachable_dir_inv [OF assms]
  have own: "owns_tmpdir c s"
    if "pc = M_Blocked \<or> (\<exists>config source listenOn starttime. pc = M_Phase8 config source listenOn starttime)"
    using that by (auto simp: dir_inv_def)
  have "\<exists>tmpDir. TempDir c '''' ''sriov-forwarder'' = Inr tmpDir \<and> fs s = {tmpDir}
          \<and> defers s = [D_RemoveAll tmpDir, D_JaegerClose]"
    if "owns_tmpdir c s"
    using that by (cases "TempDir c '''' ''sriov-forwarder''") (auto simp: owns_tmpdir_def)
  with own reachable_dir_inv [OF assms] show ?thesis
    by (auto simp: dir_inv_def)
qed

theorem tmpdir_removed_on_return_witness:
  "\<exists>s s'. reachable stub (M_Blocked, s) \<and> fs s = {''/tmp/sriov-forwarder1''}
     \<and> defers s = [D_RemoveAll ''/tmp/sriov-forwarder1'', D_JaegerClose]
     \<and> reachable stub (M_Exited 0, s') \<and> fs s' = {}"
proof -
  let ?u = "\<lparr>Scheme = ''unix'', Opaque = '''', Host = '''',
       Path = ''/tmp/sriov-forwarder1/listen_on.io.sock'', RawQuery = '''', Fragment = ''''\<rparr>"
  let ?s1 = "snd (startup stub init_state)"
  let ?s2 = "snd (phase8 stub example_config 7 ?u 1000 ?s1)"
  let ?s3 = "?s2\<lparr>ctx_done := True\<rparr>"
  have st: "startup stub init_state = (Next (example_config, 7, ?u, 1000), ?s1)"
    by (simp add: run_defs stub_defs)
  have p8: "phase8 stub example_config 7 ?u 1000 ?s1 = (Next (), ?s2)"
    by (simp add: phase8_def step_defs Let_def stub_defs)
  have r1: "reachable stub (M_Phase8 example_config 7 ?u 1000, ?s1)"
    by (rule reach_step [OF reach_init main_startup_ok [OF st]])
  have r2: "reachable stub (M_Blocked, ?s2)"
    by (rule reach_step [OF r1 main_phase8_ok [OF p8]])
  have r3: "reachable stub (M_Blocked, ?s3)"
    by (rule reach_step [OF r2 signal]) simp
  have r4: "reachable stub (M_Exited 0, main_return ?s3)"
    by (rule reach_step [OF r3 main_done]) simp
  have tmp: "TempDir stub '''' ''sriov-forwarder'' = Inr ''/tmp/sriov-forwarder1''"
    by (simp add: stub_def)
  from tmpdir_removed_on_return [OF r2] tmp
  have "fs ?s2 = {''/tmp/sriov-forwarder1''}"
    and "defers ?s2 = [D_RemoveAll ''/tmp/sriov-forwarder1'', D_JaegerClose]"
    by auto
  moreover from tmpdir_removed_on_return [OF r4] have "fs (main_return ?s3) = {}"
    by simp
  ultimately show ?thesis using r2 r4 by blast
qed

section \<open>Loading the configuration: defaults\<close>

lemma process_fields_error:
  "process_fields dec environ fl cfg = Inl e \<Longrightarrow> \<exists>f \<in> set fl. field_value dec environ f = Inl e"
proof (induction fl arbitrary: cfg)
  case Nil
  then show ?case by simp
next
  case (Cons f fl)
  show ?case
  proof (cases "field_value dec environ f")
    case (Inl e')
    with Cons.prems show ?thesis by simp
  next
    case (Inr v)
    with Cons.prems have "\<exists>cfg'. process_fields dec environ fl cfg' = Inl e"
      by (cases v) auto
    with Cons.IH show ?thesis by auto
  qed
qed

lemma default_decodes:
  assumes "ParseDuration dec ''24h'' = Inr lifetime" and "ParseDuration dec ''30s'' = Inr poll"
    and "ParseURL dec ''unix:///connect.to.socket'' = Inr connectTo"
  shows "decode dec (field_type f) (default_tag f) \<noteq> Inl e"
  using assms by (cases f) simp_all

text \<open>
  Claim C7. Every field of \<open>Config\<close> has a default and none is required. With parsers
  that accept the default strings \<open>24h\<close>, \<open>30s\<close> and \<open>unix:///connect.to.socket\<close>, and
  with \<open>envconfig.Usage\<close> returning no error, phase 1 on the empty environment goes on
  with the record of the defaults (\<open>NSName\<close> is \<open>sriovns\<close>, \<open>MaxTokenLifetime\<close> is what
  \<open>24h\<close> parses to, \<open>ResourcePollTimeout\<close> what \<open>30s\<close> parses to). In any environment,
  loading fails only with the error of decoding the value that the variable of some
  field is set to; a variable that is not set never makes it fail.
\<close>

theorem config_defaults:
  assumes life: "ParseDuration dec ''24h'' = Inr lifetime"
    and poll: "ParseDuration dec ''30s'' = Inr poll"
    and url: "ParseURL dec ''unix:///connect.to.socket'' = Inr connectTo"
    and usage: "envconfig_Usage c ''nsm'' = None"
    and process: "envconfig_Process c ''nsm'' = Process_model dec environ"
  shows "list_all (\<lambda>f. default_tag f \<noteq> '''' \<and> \<not> required_tag f) config_fields
       \<and> ((\<forall>f. environ f = None) \<longrightarrow>
            fst (phase1 c starttime s) = Next (default_config lifetime poll connectTo))
       \<and> (\<forall>e. Process_model dec environ = Inl e \<longrightarrow>
            (\<exists>f v. environ f = Some v \<and> decode dec (field_type f) v = Inl e))"
proof -
  have tags: "list_all (\<lambda>f. default_tag f \<noteq> '''' \<and> \<not> required_tag f) config_fields"
    by (simp add: config_fields_def required_tag_def)
  have empty: "fst (phase1 c starttime s) = Next (default_config lifetime poll connectTo)"
    if "\<forall>f. environ f = None"
  proof -
    from that life poll url
    have "Process_model dec environ = Inr (default_config lifetime poll connectTo)"
      by (simp add: Process_model_def config_fields_def field_value_def Config_zero_def default_config_def)
    with usage process show ?thesis
      by (simp add: phase1_def Let_def Infof_def)
  qed
  have malformed: "\<exists>f v. environ f = Some v \<and> decode dec (field_type f) v = Inl e"
    if "Process_model dec environ = Inl e" for e
  proof -
    from that obtain f where fv: "field_value dec environ f = Inl e"
      unfolding Process_model_def by (blast dest: process_fields_error)
    show ?thesis
    proof (cases "environ f")
      case None
      with fv default_decodes [OF life poll url, of f e] show ?thesis
        by (cases "decode dec (field_type f) (default_tag f)")
          (auto simp: field_value_def required_tag_def split: if_splits)
    next
      case (Some v)
      with fv have "decode dec (field_type f) v = Inl e"
        by (cases "decode dec (field_type f) v") (auto simp: field_value_def)
      with Some show ?thesis by blast
    qed
  qed
  from tags empty malformed show ?thesis by blast
qed

theorem config_defaults_witness:
  "ParseDuration example_decoders ''24h'' = Inr 86400000000000
   \<and> ParseDuration example_decoders ''30s'' = Inr 30000000000
   \<and> ParseURL example_decoders ''unix:///connect.to.socket''
       = Inr (URL_zero\<lparr>Scheme := ''unix'', Path := ''/connect.to.socket''\<rparr>)
   \<and> envconfig_Usage (stub\<lparr>envconfig_Process := \<lambda>prefix. Process_model example_decoders (\<lambda>f. None)\<rparr>) ''nsm''
       = None
   \<and> fst (phase1 (stub\<lparr>envconfig_Process := \<lambda>prefix. Process_model example_decoders (\<lambda>f. None)\<rparr>)
           1000 init_state)
       = Next (default_config 86400000000000 30000000000
                 (URL_zero\<lparr>Scheme := ''unix'', Path := ''/connect.to.socket''\<rparr>))
   \<and> Process_model example_decoders ((\<lambda>f. None)(F_MaxTokenLifetime := Some ''soon''))
       = Inl (Err ''time: invalid duration'')
   \<and> (\<exists>f v. ((\<lambda>f. None)(F_MaxTokenLifetime := Some ''soon'')) f = Some v
         \<and> decode example_decoders (field_type f) v = Inl (Err ''time: invalid duration''))"
proof -
  let ?c = "stub\<lparr>envconfig_Process := \<lambda>prefix. Process_model example_decoders (\<lambda>f. None)\<rparr>"
  let ?c' = "stub\<lparr>envconfig_Process := \<lambda>prefix. Process_model example_decoders
               ((\<lambda>f. None)(F_MaxTokenLifetime := Some ''soon''))\<rparr>"
  have life: "ParseDuration example_decoders ''24h'' = Inr 86400000000000"
    and poll: "ParseDuration example_decoders ''30s'' = Inr 30000000000"
    and url: "ParseURL example_decoders ''unix:///connect.to.socket''
       = Inr (URL_zero\<lparr>Scheme := ''unix'', Path := ''/connect.to.socket''\<rparr>)"
    by (simp_all add: example_decoders_def)
  have usage: "envconfig_Usage ?c ''nsm'' = None" and usage': "envconfig_Usage ?c' ''nsm'' = None"
    by (simp_all add: stub_def)
  have process: "envconfig_Process ?c ''nsm'' = Process_model example_decoders (\<lambda>f. None)"
    and process': "envconfig_Process ?c' ''nsm'' = Process_model example_decoders
               ((\<lambda>f. None)(F_MaxTokenLifetime := Some ''soon''))"
    by simp_all
  have bad: "Process_model example_decoders ((\<lambda>f. None)(F_MaxTokenLifetime := Some ''soon''))
       = Inl (Err ''time: invalid duration'')"
    by (simp add: Process_model_def config_fields_def field_value_def Config_zero_def example_decoders_def)
  from config_defaults [OF life poll url usage process, of 1000 init_state]
  have "fst (phase1 ?c 1000 init_state)
       = Next (default_config 86400000000000 30000000000
                 (URL_zero\<lparr>Scheme := ''unix'', Path := ''/connect.to.socket''\<rparr>))"
    by simp
  moreover from config_defaults [OF life poll url usage' process', of 1000 init_state] bad
  have "\<exists>f v. ((\<lambda>f. None)(F_MaxTokenLifetime := Some ''soon'')) f = Some v
         \<and> decode example_decoders (field_type f) v = Inl (Err ''time: invalid duration'')"
    by blast
  ultimately show ?thesis using life poll url usage bad by blast
qed

end
